theory Spec2Isabelle
  imports Main
begin

section \<open>Python values handled by the interactive table helpers\<close>

text \<open>
  The two modules are Python 2 code (\<open>long\<close>, \<open>basestring\<close>, \<open>unicode\<close>,
  \<open>print\<close> as a statement).  A raised exception is a value \<open>Inl e\<close> of the result type
  \<open>error + 'a\<close>; \<open>UserError\<close> stands for whatever a caller-supplied callable raises.
\<close>

datatype error =
    IndexError
  | TypeError
  | AttributeError
  | UnicodeDecodeError
  | UnicodeEncodeError
  | KeyError
  | UserError string

text \<open>
  A float is carried by the observations the code makes of it: the text \<open>json.dumps\<close>
  emits for it (its \<open>repr\<close>, or \<open>NaN\<close> / \<open>Infinity\<close>), the answer of \<open>is_integer()\<close> and
  the value of \<open>int(x)\<close>.
\<close>

datatype pyfloat = PyFloat (float_json: string) (float_is_integer: bool) (float_int: int)

text \<open>
  The Python builtin a numpy scalar type inherits from, when it has one
  (\<open>numpy.float64\<close> is a \<open>float\<close>; under Python 2 \<open>numpy.int64\<close> is an \<open>int\<close> on 64-bit Linux).
\<close>

datatype np_base = NoBase | FloatBase | IntBase

text \<open>
  A numpy value (anything with \<open>'numpy'\<close> in the name of its type and a \<open>dtype\<close>) is the
  record of what \<open>ToJs\<close> and the type inference can observe of it:
  \<open>x.dtype.kind\<close>, \<open>x.shape\<close>, \<open>type(x).__name__\<close>, \<open>str(x)\<close>, \<open>str(pd.to_datetime(x))\<close>,
  \<open>bool(x)\<close>, \<open>x.is_integer()\<close> (\<open>None\<close> when the attribute is absent), \<open>int(x)\<close> / \<open>long(x)\<close>,
  \<open>float(x)\<close>, whether the type is registered as a \<open>numbers.Number\<close>, and its builtin base.
  numpy strings (\<open>numpy.string_\<close>, \<open>numpy.unicode_\<close>) inherit from \<open>str\<close> / \<open>unicode\<close>, match no
  branch of \<open>ToJs\<close> and are modelled as plain strings.
\<close>

datatype npval = NpVal
  (np_kind: char)
  (np_shape: "nat list")
  (np_type_name: string)
  (np_str: string)
  (np_datetime_str: string)
  (np_bool: bool)
  (np_is_integer: "bool option")
  (np_int: int)
  (np_float: pyfloat)
  (np_is_number: bool)
  (np_builtin: np_base)

text \<open>
  Cell values.  \<open>PInt\<close> is an \<open>int\<close> or a \<open>long\<close> (unbounded); \<open>PStr\<close> is a byte string
  (\<open>str\<close>), \<open>PUnicode\<close> a list of code points; \<open>PList\<close> is a list or a tuple.  \<open>PObj\<close> is
  any other object: whether its class is a \<open>numbers.Number\<close> (complex, Decimal, Fraction),
  the bytes of \<open>str(x)\<close>, and what \<open>x.__html__()\<close> and \<open>x._repr_html_()\<close> return when the
  object has these methods.
\<close>

datatype pyval =
    PNone
  | PBool bool
  | PInt int
  | PFloat pyfloat
  | PStr string
  | PUnicode "nat list"
  | PList "pyval list"
  | PObj (obj_is_number: bool) (obj_str: string)
         (obj_html: "pyval option") (obj_repr_html: "pyval option")
  | PNumpy npval

type_synonym formatter = "pyval \<Rightarrow> error + pyval"

subsection \<open>Classes: \<open>type\<close>, \<open>issubclass\<close>, \<open>isinstance\<close>\<close>

datatype pyclass =
    C_NoneType | C_bool | C_int | C_float | C_str | C_unicode | C_list
  | C_basestring | C_Number
  | C_object bool
  | C_numpy bool np_base

fun type_of :: "pyval \<Rightarrow> pyclass" where
  "type_of PNone = C_NoneType"
| "type_of (PBool _) = C_bool"
| "type_of (PInt _) = C_int"
| "type_of (PFloat _) = C_float"
| "type_of (PStr _) = C_str"
| "type_of (PUnicode _) = C_unicode"
| "type_of (PList _) = C_list"
| "type_of (PObj n _ _ _) = C_object n"
| "type_of (PNumpy v) = C_numpy (np_is_number v) (np_builtin v)"

text \<open>
  \<open>bool\<close> inherits from \<open>int\<close>; \<open>int\<close>, \<open>float\<close> (and so \<open>bool\<close>) are registered numbers;
  \<open>str\<close> and \<open>unicode\<close> inherit from \<open>basestring\<close>.
\<close>

fun issubclass :: "pyclass \<Rightarrow> pyclass \<Rightarrow> bool" where
  "issubclass c C_Number =
     (case c of C_bool \<Rightarrow> True | C_int \<Rightarrow> True | C_float \<Rightarrow> True | C_Number \<Rightarrow> True
      | C_object n \<Rightarrow> n | C_numpy n b \<Rightarrow> n \<or> b \<noteq> NoBase | _ \<Rightarrow> False)"
| "issubclass c C_basestring = (c = C_str \<or> c = C_unicode \<or> c = C_basestring)"
| "issubclass c C_int =
     (case c of C_int \<Rightarrow> True | C_bool \<Rightarrow> True | C_numpy n b \<Rightarrow> b = IntBase | _ \<Rightarrow> False)"
| "issubclass c C_float =
     (case c of C_float \<Rightarrow> True | C_numpy n b \<Rightarrow> b = FloatBase | _ \<Rightarrow> False)"
| "issubclass c d = (c = d)"

definition isinstance :: "pyval \<Rightarrow> pyclass \<Rightarrow> bool" where
  "isinstance x c = issubclass (type_of x) c"

subsection \<open>Text helpers\<close>

definition digit_char :: "nat \<Rightarrow> char" where
  "digit_char d = (''0123456789abcdef'') ! (d mod 16)"

fun show_nat :: "nat \<Rightarrow> string" where
  "show_nat n = (if n < 10 then [digit_char n] else show_nat (n div 10) @ [digit_char (n mod 10)])"

declare show_nat.simps [simp del]

text \<open>\<open>'%d' % x\<close> and \<open>str(x)\<close> of an integer.\<close>

definition show_int :: "int \<Rightarrow> string" where
  "show_int i = (if i < 0 then CHR ''-'' # show_nat (nat (- i)) else show_nat (nat i))"

text \<open>\<open>'%04x' % n\<close> for \<open>n < 0x10000\<close>.\<close>

definition hex4 :: "nat \<Rightarrow> string" where
  "hex4 n = [digit_char (n div 4096), digit_char (n div 256), digit_char (n div 16), digit_char n]"

text \<open>\<open>sep.join(xs)\<close>.\<close>

fun join :: "string \<Rightarrow> string list \<Rightarrow> string" where
  "join sep [] = []"
| "join sep [x] = x"
| "join sep (x # y # ys) = x @ sep @ join sep (y # ys)"

text \<open>
  \<open>s.replace(old, new)\<close>: the occurrences of \<open>old\<close> are found from the left and do not
  overlap.  (With an empty \<open>old\<close> Python inserts \<open>new\<close> around every character; the code
  never does that and the model leaves the text unchanged.)
\<close>

fun replace :: "string \<Rightarrow> string \<Rightarrow> string \<Rightarrow> string" where
  "replace old new [] = []"
| "replace old new (c # cs) =
     (if old \<noteq> [] \<and> take (length old) (c # cs) = old
      then new @ replace old new (drop (length old - 1) cs)
      else c # replace old new cs)"

text \<open>\<open>sub in s\<close> for strings.\<close>

fun contains :: "string \<Rightarrow> string \<Rightarrow> bool" where
  "contains sub [] = (sub = [])"
| "contains sub (c # cs) = (take (length sub) (c # cs) = sub \<or> contains sub cs)"

text \<open>\<open>cgi.escape(s)\<close> (without \<open>quote\<close>): \<open>&\<close>, \<open><\<close> and \<open>>\<close> become entities.\<close>

definition cgi_escape :: "string \<Rightarrow> string" where
  "cgi_escape s =
     concat (map (\<lambda>c. if c = CHR ''&'' then ''&amp;''
                       else if c = CHR ''<'' then ''&lt;''
                       else if c = CHR ''>'' then ''&gt;'' else [c]) s)"

subsection \<open>Exceptions as values\<close>

definition bind_result :: "error + 'a \<Rightarrow> ('a \<Rightarrow> error + 'b) \<Rightarrow> error + 'b" where
  "bind_result r f = (case r of Inl e \<Rightarrow> Inl e | Inr v \<Rightarrow> f v)"

text \<open>Evaluating a list of computations from the left: the first exception leaves the loop.\<close>

fun sequence :: "(error + 'a) list \<Rightarrow> error + 'a list" where
  "sequence [] = Inr []"
| "sequence (r # rs) =
     (case r of Inl e \<Rightarrow> Inl e
      | Inr v \<Rightarrow> (case sequence rs of Inl e \<Rightarrow> Inl e | Inr vs \<Rightarrow> Inr (v # vs)))"

section \<open>\<open>json.dumps\<close>\<close>

text \<open>
  The standard encoder with its defaults (\<open>ensure_ascii\<close>, separators \<open>', '\<close>).
  A character outside \<open>' '..'~'\<close>, a backslash and a double quote are escaped; a code
  point beyond the basic plane becomes a surrogate pair.
\<close>

definition escape_cp :: "nat \<Rightarrow> string" where
  "escape_cp n =
     (if n = 0x22 then [CHR 0x5C, CHR 0x22]
      else if n = 0x5C then [CHR 0x5C, CHR 0x5C]
      else if n = 0x0A then [CHR 0x5C, CHR ''n'']
      else if n = 0x0D then [CHR 0x5C, CHR ''r'']
      else if n = 0x09 then [CHR 0x5C, CHR ''t'']
      else if n = 0x08 then [CHR 0x5C, CHR ''b'']
      else if n = 0x0C then [CHR 0x5C, CHR ''f'']
      else if 0x20 \<le> n \<and> n \<le> 0x7E then [char_of n]
      else if n < 0x10000 then [CHR 0x5C, CHR ''u''] @ hex4 n
      else (let v = n - 0x10000;
                s1 = 0xD800 + (v div 1024) mod 1024;
                s2 = 0xDC00 + v mod 1024
            in [CHR 0x5C, CHR ''u''] @ hex4 s1 @ [CHR 0x5C, CHR ''u''] @ hex4 s2))"

definition encode_unicode :: "nat list \<Rightarrow> string" where
  "encode_unicode cps = [CHR 0x22] @ concat (map escape_cp cps) @ [CHR 0x22]"

text \<open>
  \<open>s.decode('utf-8')\<close> of Python 2.7 on the byte values of \<open>s\<close>: \<open>None\<close> is
  \<open>UnicodeDecodeError\<close>.  Overlong forms, the lead bytes \<open>C0\<close>, \<open>C1\<close>, \<open>F5..FF\<close> and
  broken continuations are refused.
\<close>

definition is_cont :: "nat \<Rightarrow> bool" where
  "is_cont b = (0x80 \<le> b \<and> b \<le> 0xBF)"

fun utf8_decode :: "nat list \<Rightarrow> nat list option" where
  "utf8_decode [] = Some []"
| "utf8_decode (b0 # bs) =
     (if b0 < 0x80 then map_option ((#) b0) (utf8_decode bs)
      else if 0xC2 \<le> b0 \<and> b0 \<le> 0xDF then
        (case bs of
           b1 # r \<Rightarrow>
             if is_cont b1
             then map_option ((#) ((b0 - 0xC0) * 64 + (b1 - 0x80))) (utf8_decode r)
             else None
         | _ \<Rightarrow> None)
      else if 0xE0 \<le> b0 \<and> b0 \<le> 0xEF then
        (case bs of
           b1 # b2 # r \<Rightarrow>
             if is_cont b1 \<and> is_cont b2 \<and> (if b0 = 0xE0 then 0xA0 \<le> b1 else True)
             then map_option ((#) ((b0 - 0xE0) * 4096 + (b1 - 0x80) * 64 + (b2 - 0x80)))
                    (utf8_decode r)
             else None
         | _ \<Rightarrow> None)
      else if 0xF0 \<le> b0 \<and> b0 \<le> 0xF4 then
        (case bs of
           b1 # b2 # b3 # r \<Rightarrow>
             if is_cont b1 \<and> is_cont b2 \<and> is_cont b3
                \<and> (if b0 = 0xF0 then 0x90 \<le> b1 else True)
                \<and> (if b0 = 0xF4 then b1 \<le> 0x8F else True)
             then map_option
                    ((#) ((b0 - 0xF0) * 262144 + (b1 - 0x80) * 4096 + (b2 - 0x80) * 64 + (b3 - 0x80)))
                    (utf8_decode r)
             else None
         | _ \<Rightarrow> None)
      else None)"

text \<open>
  A byte string is decoded as UTF-8 when it holds a byte above \<open>0x7F\<close>; this is where
  \<open>json.dumps\<close> raises \<open>UnicodeDecodeError\<close>.
\<close>

definition encode_str :: "string \<Rightarrow> error + string" where
  "encode_str s =
     (let bytes = map of_char s in
      if list_all (\<lambda>b. b < (0x80::nat)) bytes then Inr (encode_unicode bytes)
      else (case utf8_decode bytes of
              None \<Rightarrow> Inl UnicodeDecodeError
            | Some cps \<Rightarrow> Inr (encode_unicode cps)))"

text \<open>
  \<open>json_dumps True x\<close> is \<open>json.dumps(x, default=lambda x: cgi.escape(str(x)))\<close> and
  \<open>json_dumps False x\<close> is \<open>json.dumps(x)\<close>, which raises \<open>TypeError\<close> on an object it
  cannot serialize.
\<close>

fun json_dumps :: "bool \<Rightarrow> pyval \<Rightarrow> error + string" where
  "json_dumps d PNone = Inr ''null''"
| "json_dumps d (PBool b) = Inr (if b then ''true'' else ''false'')"
| "json_dumps d (PInt i) = Inr (show_int i)"
| "json_dumps d (PFloat f) = Inr (float_json f)"
| "json_dumps d (PStr s) = encode_str s"
| "json_dumps d (PUnicode cps) = Inr (encode_unicode cps)"
| "json_dumps d (PList xs) =
     bind_result (sequence (map (json_dumps d) xs)) (\<lambda>ss. Inr (''['' @ join '', '' ss @ '']''))"
| "json_dumps d (PObj n s h r) = (if d then encode_str (cgi_escape s) else Inl TypeError)"
| "json_dumps d (PNumpy v) =
     (case np_builtin v of
        FloatBase \<Rightarrow> Inr (float_json (np_float v))
      | IntBase \<Rightarrow> Inr (show_int (np_int v))
      | NoBase \<Rightarrow> (if d then encode_str (cgi_escape (np_str v)) else Inl TypeError))"

section \<open>The value normalizer \<open>ToJs\<close>\<close>

text \<open>Lines 96--99: an object that renders itself as markup is replaced by its markup.\<close>

definition html_convert :: "pyval \<Rightarrow> pyval" where
  "html_convert x =
     (case x of
        PObj n s (Some h) r \<Rightarrow> h
      | PObj n s None (Some r) \<Rightarrow> r
      | _ \<Rightarrow> x)"

definition np_int_types :: "string list" where
  "np_int_types =
     [''int32'', ''int64'', ''int8'', ''int16'', ''uint32'', ''uint64'', ''uint8'', ''uint16'']"

definition startswith :: "string \<Rightarrow> string \<Rightarrow> bool" where
  "startswith s p = (take (length p) s = p)"

text \<open>Lines 104--118: the numpy kinds, in the order the code tests them.\<close>

definition numpy_convert :: "pyval \<Rightarrow> pyval" where
  "numpy_convert x =
     (case x of
        PNumpy v \<Rightarrow>
          if np_kind v = CHR ''M'' then PStr (np_datetime_str v)
          else if np_shape v \<noteq> [] then PStr (np_str v)
          else if np_kind v = CHR ''b'' then PBool (np_bool v)
          else if startswith (np_type_name v) ''float'' then
            (if np_is_integer v = Some True then PInt (np_int v) else PFloat (np_float v))
          else if np_type_name v \<in> set np_int_types then PInt (np_int v)
          else x
      | _ \<Rightarrow> x)"

text \<open>
  The integer an instance of \<open>int\<close> or \<open>long\<close> stands for (\<open>bool\<close> inherits from \<open>int\<close>),
  \<open>None\<close> for a value that is neither.
\<close>

definition int_value :: "pyval \<Rightarrow> int option" where
  "int_value x =
     (case x of
        PInt i \<Rightarrow> Some i
      | PBool b \<Rightarrow> Some (if b then 1 else 0)
      | PNumpy v \<Rightarrow> (if np_builtin v = IntBase then Some (np_int v) else None)
      | _ \<Rightarrow> None)"

text \<open>Lines 119--120: an integer beyond \<open>2**52\<close> in magnitude becomes its decimal text.\<close>

definition big_int_to_text :: "pyval \<Rightarrow> pyval" where
  "big_int_to_text x =
     (case int_value x of
        Some i \<Rightarrow> if \<bar>i\<bar> > 2 ^ 52 then PStr (show_int i) else x
      | None \<Rightarrow> x)"

definition convert :: "pyval \<Rightarrow> pyval" where
  "convert x = big_int_to_text (numpy_convert (html_convert x))"

lemma size_convert_list:
  assumes "convert x = PList els"
  shows "size_list size els < size x"
proof -
  have hc: "html_convert x = PList els"
    using assms
    by (auto simp: convert_def big_int_to_text_def numpy_convert_def int_value_def
             split: pyval.splits option.splits if_splits)
  have "size (html_convert x) \<le> size x"
    by (auto simp: html_convert_def split: pyval.splits option.splits)
  then show ?thesis using hc by simp
qed

text \<open>
  \<open>ToJs_value x nf as_string\<close> is the body of \<open>ToJs\<close> from line 96 on, that is \<open>ToJs\<close> on a
  value the formatter, if any, has already been applied to; \<open>nf\<close> is
  \<open>default_nonunicode_formatter\<close>.  \<open>ToJs_each els nf\<close> is the list comprehension of
  line 131, \<open>[ToJs(el, default_nonunicode_formatter) for el in x]\<close>: its calls pass no
  formatter and no \<open>as_string\<close>, and the first exception ends it.  Iterating over a value
  that is not a sequence raises \<open>TypeError\<close>.
\<close>

function ToJs_value :: "pyval \<Rightarrow> formatter \<Rightarrow> bool \<Rightarrow> error + string"
  and ToJs_each :: "pyval list \<Rightarrow> formatter \<Rightarrow> error + string list" where
  "ToJs_value x0 nf as_string =
     (let x = convert x0;
          double_encode_json = (as_string \<and> \<not> isinstance x C_basestring)
      in bind_result
           (case json_dumps True x of
              Inr r \<Rightarrow> Inr r
            | Inl e \<Rightarrow>
                if e = UnicodeDecodeError then
                  (if isinstance x C_basestring then bind_result (nf x) (json_dumps False)
                   else
                     (case x of
                        PList els \<Rightarrow>
                          bind_result (ToJs_each els nf)
                            (\<lambda>ss. json_dumps False (PList (map PStr ss)))
                      | _ \<Rightarrow> Inl TypeError))
                else Inl e)
           (\<lambda>result.
              let result = replace ''</'' [CHR ''<'', CHR 0x5C, CHR ''/''] result
              in if double_encode_json then json_dumps False (PStr result) else Inr result))"
| "ToJs_each [] nf = Inr []"
| "ToJs_each (el # els) nf =
     (case ToJs_value el nf False of
        Inl e \<Rightarrow> Inl e
      | Inr s \<Rightarrow> (case ToJs_each els nf of Inl e \<Rightarrow> Inl e | Inr ss \<Rightarrow> Inr (s # ss)))"
  by pat_completeness auto
termination
proof (relation "measure (\<lambda>a. case a of Inl (x, nf, s) \<Rightarrow> 2 * size x
                                      | Inr (els, nf) \<Rightarrow> 2 * size_list size els + 1)",
       goal_cases)
  case (2 x0 nf as_string x dbl e els)
  then have "convert x0 = PList els" by simp
  from size_convert_list [OF this] show ?case by simp
qed auto

declare ToJs_value.simps [simp del]

definition ToJs :: "pyval \<Rightarrow> formatter \<Rightarrow> formatter option \<Rightarrow> bool \<Rightarrow> error + string" where
  "ToJs x default_nonunicode_formatter formatter as_string =
     (case formatter of
        None \<Rightarrow> ToJs_value x default_nonunicode_formatter as_string
      | Some f \<Rightarrow> bind_result (f x) (\<lambda>x. ToJs_value x default_nonunicode_formatter as_string))"

section \<open>Warnings\<close>

text \<open>A column label, and a key of the caller's formatter dict: an integer or a text.\<close>

datatype key = KInt int | KStr string

text \<open>
  Each \<open>print\<close> of the helper module is one warning; \<open>warning_text\<close> is the line printed.
\<close>

datatype warning =
    FormatterIndexExceeds int nat
  | FormatterNameMissing key
  | FormatterCollision nat key
  | DataExceedsLimit int nat
  | TooManyColumns nat int
  | TooManyRows nat int

definition key_text :: "key \<Rightarrow> string" where
  "key_text k = (case k of KInt i \<Rightarrow> show_int i | KStr s \<Rightarrow> s)"

fun warning_text :: "warning \<Rightarrow> string" where
  "warning_text (FormatterIndexExceeds col n) =
     ''Warning: Custom formatter column index '' @ show_int col
     @ '' exceeds total number of columns ('' @ show_nat n @ '')''"
| "warning_text (FormatterNameMissing col) =
     ''Warning: Custom formatter column name '' @ key_text col
     @ '' not present in column list''"
| "warning_text (FormatterCollision i name) =
     ''Warning: Custom formatter for column index '' @ show_nat i
     @ '' present, ignoring formatter for column name '' @ key_text name"
| "warning_text (DataExceedsLimit max_data_size discarded) =
     ''The table data exceeds the limit '' @ show_int max_data_size
     @ ''. Will discard last '' @ show_nat discarded @ '' rows ''"
| "warning_text (TooManyColumns n max_columns) =
     ''Warning: Total number of columns ('' @ show_nat n @ '') exceeds max_columns (''
     @ show_int max_columns @ '') limiting to first max_columns ''"
| "warning_text (TooManyRows n max_rows) =
     ''Warning: total number of rows ('' @ show_nat n @ '') exceeds max_rows (''
     @ show_int max_rows @ '')  limiting to first max_rows ''"

section \<open>Sequences\<close>

text \<open>\<open>xs[i]\<close>: a negative index counts from the end, an index out of range raises.\<close>

definition getitem :: "'a list \<Rightarrow> int \<Rightarrow> error + 'a" where
  "getitem xs i =
     (if 0 \<le> i \<and> i < int (length xs) then Inr (xs ! nat i)
      else if i < 0 \<and> - int (length xs) \<le> i then Inr (xs ! nat (int (length xs) + i))
      else Inl IndexError)"

text \<open>\<open>xs[:n]\<close>: a negative bound counts from the end, and the slice never raises.\<close>

definition slice_to :: "'a list \<Rightarrow> int \<Rightarrow> 'a list" where
  "slice_to xs n = (if n < 0 then take (nat (int (length xs) + n)) xs else take (nat n) xs)"

section \<open>\<open>ToJsMatrix\<close>: the size-capped matrix\<close>

text \<open>
  The loop of lines 162--167 over \<open>enumerate(values)\<close>: \<open>Some i\<close> is the index at which the
  running total first exceeds \<open>max_data_size\<close> (the \<open>break\<close>), \<open>None\<close> a loop that ends.
\<close>

fun size_scan :: "string list \<Rightarrow> nat \<Rightarrow> int \<Rightarrow> int \<Rightarrow> nat option" where
  "size_scan [] i total_size max_data_size = None"
| "size_scan (each # rest) i total_size max_data_size =
     (let total_size = total_size + int (length each) + 10
      in if total_size > max_data_size then Some i
         else size_scan rest (Suc i) total_size max_data_size)"

text \<open>The text between two rows, \<open>'],\n ['\<close>.\<close>

definition row_separator :: string where
  "row_separator = '']'' @ '','' @ [CHR 0x0A] @ '' [''"

definition row_to_js :: "formatter \<Rightarrow> (int \<rightharpoonup> formatter) \<Rightarrow> pyval list \<Rightarrow> error + string" where
  "row_to_js nf custom_formatters row =
     bind_result
       (sequence (map (\<lambda>(i, el). ToJs el nf (custom_formatters (int i)) False) (enumerate 0 row)))
       (\<lambda>vs. Inr (join '','' vs))"

definition ToJsMatrix ::
  "pyval list list \<Rightarrow> formatter \<Rightarrow> (int \<rightharpoonup> formatter) \<Rightarrow> int \<Rightarrow> error + (warning list \<times> string)"
where
  "ToJsMatrix matrix nf custom_formatters max_data_size =
     bind_result (sequence (map (row_to_js nf custom_formatters) matrix))
       (\<lambda>values.
          let (discarded, values) =
                (case size_scan values 0 0 max_data_size of
                   None \<Rightarrow> (0, values)
                 | Some i \<Rightarrow> (length values - i, take i values))
          in Inr (if discarded \<noteq> 0 then [DataExceedsLimit max_data_size discarded] else [],
                  ''[['' @ join row_separator values @ '']]''))"

section \<open>The shape limits \<open>TrimColumns\<close> and \<open>TrimData\<close>\<close>

definition TrimColumns :: "key list \<Rightarrow> int \<Rightarrow> warning list \<times> key list" where
  "TrimColumns columns max_columns =
     (if int (length columns) \<le> max_columns then ([], columns)
      else ([TooManyColumns (length columns) max_columns], slice_to columns max_columns))"

text \<open>
  \<open>TrimData\<close> assigns to the items of the list it is given, so the list of rows lives in
  a store: an address holds a list of rows, and a row is a value (a row is never changed
  in place, a slice is a new row).  \<open>alloc\<close> is the creation of a new list.
\<close>

type_synonym addr = nat

record heap =
  list_at :: "addr \<Rightarrow> pyval list list"
  next_free :: addr

definition alloc :: "heap \<Rightarrow> pyval list list \<Rightarrow> heap \<times> addr" where
  "alloc h v = (h\<lparr>list_at := (list_at h)(next_free h := v), next_free := Suc (next_free h)\<rparr>, next_free h)"

text \<open>\<open>data[i] = v\<close>.\<close>

definition setitem :: "heap \<Rightarrow> addr \<Rightarrow> nat \<Rightarrow> pyval list \<Rightarrow> heap" where
  "setitem h data i v = h\<lparr>list_at := (list_at h)(data := (list_at h data)[i := v])\<rparr>"

text \<open>Lines 188--189: \<open>for i, _ in enumerate(data): data[i] = data[i][:max_columns]\<close>.\<close>

definition trim_rows :: "heap \<Rightarrow> addr \<Rightarrow> int \<Rightarrow> heap" where
  "trim_rows h data max_columns =
     fold (\<lambda>i h. setitem h data i (slice_to (list_at h data ! i) max_columns))
          [0..<length (list_at h data)] h"

definition TrimData :: "heap \<Rightarrow> addr \<Rightarrow> int \<Rightarrow> int option \<Rightarrow> warning list \<times> heap \<times> addr" where
  "TrimData h data max_rows max_columns =
     (let h = (case max_columns of
                 None \<Rightarrow> h
               | Some mc \<Rightarrow>
                   if length (list_at h data) \<noteq> 0 \<and> int (length (hd (list_at h data))) > mc
                   then trim_rows h data mc else h)
      in if int (length (list_at h data)) \<le> max_rows then ([], h, data)
         else (let (h', a) = alloc h (slice_to (list_at h data) max_rows)
               in ([TooManyRows (length (list_at h data)) max_rows], h', a)))"

section \<open>Column type inference\<close>

definition DetermineColumnType :: "pyclass set \<Rightarrow> string" where
  "DetermineColumnType data_types =
     (if \<forall>t \<in> data_types.
           (issubclass t C_Number \<or> issubclass t C_NoneType) \<and> \<not> issubclass t C_bool
      then ''number'' else ''string'')"

text \<open>Lines 216--221: the type recorded for one cell.\<close>

definition cell_type :: "pyval \<Rightarrow> pyclass" where
  "cell_type cell =
     (let t = type_of cell;
          is_known_type = (cell = PNone \<or> issubclass t C_Number \<or> issubclass t C_basestring)
      in if \<not> is_known_type then C_str else t)"

definition GetColumnType :: "pyval list list \<Rightarrow> int \<Rightarrow> error + string" where
  "GetColumnType data column_index =
     bind_result (sequence (map (\<lambda>row. getitem row column_index) data))
       (\<lambda>cells. Inr (DetermineColumnType (set (map cell_type cells))))"

section \<open>\<open>FormatData\<close>: the payload of the widget\<close>

text \<open>The object literal of lines 243--246, with the white space of the source.\<close>

definition pair_literal :: "string \<Rightarrow> string \<Rightarrow> string" where
  "pair_literal raw_value formatted_value =
     ''{'' @ [CHR 0x0A] @ ''            '' @ [CHR 0x27] @ ''v'' @ [CHR 0x27] @ '': '' @ raw_value
     @ '','' @ [CHR 0x0A] @ ''            '' @ [CHR 0x27] @ ''f'' @ [CHR 0x27] @ '': ''
     @ formatted_value @ '','' @ [CHR 0x0A] @ ''        }''"

text \<open>
  Lines 234--246, one cell.  \<open>column_type is not 'number'\<close> compares the text that
  \<open>DetermineColumnType\<close> returned with the literal.
\<close>

definition format_cell ::
  "string list \<Rightarrow> formatter \<Rightarrow> (int \<rightharpoonup> formatter) \<Rightarrow> nat \<Rightarrow> pyval \<Rightarrow> error + string" where
  "format_cell column_types default_formatter custom_formatters column_index cell =
     (let custom_formatter = custom_formatters (int column_index)
      in bind_result (case custom_formatter of Some f \<Rightarrow> f cell | None \<Rightarrow> Inr cell)
           (\<lambda>formatted_value.
              bind_result (getitem column_types (int column_index))
                (\<lambda>column_type.
                   if column_type \<noteq> ''number'' \<or> custom_formatter = None
                   then ToJs formatted_value default_formatter None False
                   else bind_result (ToJs cell default_formatter None False)
                          (\<lambda>raw_value.
                             bind_result (ToJs formatted_value default_formatter None True)
                               (\<lambda>formatted_value.
                                  Inr (pair_literal raw_value formatted_value))))))"

definition format_row ::
  "string list \<Rightarrow> formatter \<Rightarrow> (int \<rightharpoonup> formatter) \<Rightarrow> pyval list \<Rightarrow> error + string" where
  "format_row column_types default_formatter custom_formatters row =
     bind_result
       (sequence (map (\<lambda>(column_index, cell).
                         format_cell column_types default_formatter custom_formatters
                           column_index cell)
                      (enumerate 0 row)))
       (\<lambda>formatted_row. Inr (join ('','' @ [CHR 0x0A]) formatted_row))"

text \<open>The dict \<open>{'column_types': ..., 'data': ...}\<close> that \<open>FormatData\<close> returns.\<close>

record formatted =
  fd_column_types :: "string list"
  fd_data :: string

definition FormatData ::
  "pyval list list \<Rightarrow> formatter \<Rightarrow> (int \<rightharpoonup> formatter) \<Rightarrow> error + formatted" where
  "FormatData rows default_formatter custom_formatters =
     bind_result (getitem rows 0)
       (\<lambda>row0.
          bind_result (sequence (map (\<lambda>i. GetColumnType rows (int i)) [0..<length row0]))
            (\<lambda>types.
               bind_result
                 (sequence (map (format_row types default_formatter custom_formatters) rows))
                 (\<lambda>formatted_values.
                    Inr \<lparr>fd_column_types = types,
                         fd_data = ''[['' @ join row_separator formatted_values @ '']]''\<rparr>)))"

section \<open>\<open>ProcessCustomFormatters\<close>\<close>

text \<open>
  The caller's dict is an association list with distinct keys, in the order the dict
  iterates; the result is a dict keyed by integers.
\<close>

text \<open>Lines 54--61, the two checks on one key.\<close>

definition check_key :: "key list \<Rightarrow> key \<Rightarrow> warning list" where
  "check_key columns col =
     (case col of
        KInt c \<Rightarrow> if c \<ge> int (length columns) then [FormatterIndexExceeds c (length columns)] else []
      | KStr n \<Rightarrow> if col \<notin> set columns then [FormatterNameMissing col] else [])"

text \<open>Lines 64--67, the entries with an integer key.\<close>

definition index_formatters :: "(key \<times> 'f) list \<Rightarrow> (int \<rightharpoonup> 'f)" where
  "index_formatters formatters = (\<lambda>k. map_of formatters (KInt k))"

text \<open>Lines 69--76, the loop over \<open>enumerate(columns)\<close> from index \<open>i\<close> on.\<close>

fun resolve_names ::
  "(key \<times> 'f) list \<Rightarrow> nat \<Rightarrow> key list \<Rightarrow> (int \<rightharpoonup> 'f) \<Rightarrow> warning list \<times> (int \<rightharpoonup> 'f)" where
  "resolve_names formatters i [] output_formatters = ([], output_formatters)"
| "resolve_names formatters i (name # rest) output_formatters =
     (case map_of formatters name of
        None \<Rightarrow> resolve_names formatters (Suc i) rest output_formatters
      | Some f \<Rightarrow>
          (case output_formatters (int i) of
             Some g \<Rightarrow>
               (let (ws, out) = resolve_names formatters (Suc i) rest output_formatters
                in (FormatterCollision i name # ws, out))
           | None \<Rightarrow>
               resolve_names formatters (Suc i) rest (output_formatters(int i \<mapsto> f))))"

definition ProcessCustomFormatters ::
  "(key \<times> 'f) list option \<Rightarrow> key list \<Rightarrow> warning list \<times> (int \<rightharpoonup> 'f)" where
  "ProcessCustomFormatters formatters columns =
     (case formatters of
        None \<Rightarrow> ([], Map.empty)
      | Some fs \<Rightarrow>
          if fs = [] then ([], Map.empty)
          else (let ws1 = concat (map (\<lambda>(col, f). check_key columns col) fs);
                    (ws2, out) = resolve_names fs 0 columns (index_formatters fs)
                in (ws1 @ ws2, out)))"

section \<open>The widget \<open>GVizTable\<close>\<close>

subsection \<open>Module constants and default formatters\<close>

text \<open>
  \<open>FORCE_TO_LATIN1\<close>: \<open>'nonunicode data: %s...' % cgi.escape(x[:100].decode('latin1'))\<close>.
  On a byte string the result is a unicode text; \<open>ToJs\<close> calls it on byte strings only.
\<close>

definition FORCE_TO_LATIN1 :: formatter where
  "FORCE_TO_LATIN1 x =
     (case x of
        PStr s \<Rightarrow>
          Inr (PUnicode (map of_char (''nonunicode data: '' @ cgi_escape (take 100 s) @ ''...'')))
      | PUnicode cps \<Rightarrow>
          if list_all (\<lambda>c. c < 0x80) (take 100 cps)
          then Inr (PUnicode (map of_char
                 (''nonunicode data: '' @ cgi_escape (map char_of (take 100 cps)) @ ''...'')))
          else Inl UnicodeEncodeError
      | PList xs \<Rightarrow> Inl AttributeError
      | _ \<Rightarrow> Inl TypeError)"

definition DEFAULT_NONUNICODE_FORMATTER :: formatter where
  "DEFAULT_NONUNICODE_FORMATTER = FORCE_TO_LATIN1"

text \<open>\<open>x.encode('utf8')\<close> of a unicode text.\<close>

definition utf8_encode_cp :: "nat \<Rightarrow> nat list" where
  "utf8_encode_cp n =
     (if n < 0x80 then [n]
      else if n < 0x800 then [0xC0 + n div 64, 0x80 + n mod 64]
      else if n < 0x10000 then [0xE0 + n div 4096, 0x80 + (n div 64) mod 64, 0x80 + n mod 64]
      else [0xF0 + n div 262144, 0x80 + (n div 4096) mod 64, 0x80 + (n div 64) mod 64,
            0x80 + n mod 64])"

definition encode_utf8 :: formatter where
  "encode_utf8 x =
     (case x of
        PUnicode cps \<Rightarrow> Inr (PStr (map char_of (concat (map utf8_encode_cp cps))))
      | _ \<Rightarrow> Inl AttributeError)"

text \<open>
  A dict from types to formatters is an association list in the order the dict iterates.
  \<open>DEFAULT_FORMATTERS\<close> is the value the module global starts with; the constructor
  reads the global, so it takes the current value as an argument.
\<close>

definition DEFAULT_FORMATTERS :: "(pyclass \<times> formatter) list" where
  "DEFAULT_FORMATTERS = [(C_unicode, encode_utf8)]"

definition FormatAsText :: formatter where
  "FormatAsText x =
     (case x of
        PStr s \<Rightarrow> Inr (PStr (cgi_escape s))
      | PUnicode cps \<Rightarrow>
          Inr (PUnicode (concat (map (\<lambda>c. if c = 0x26 then map of_char ''&amp;''
                                           else if c = 0x3C then map of_char ''&lt;''
                                           else if c = 0x3E then map of_char ''&gt;''
                                           else [c]) cps)))
      | _ \<Rightarrow> Inl AttributeError)"

definition DEFAULT_MAX_ROWS :: int where "DEFAULT_MAX_ROWS = 20000"
definition DEFAULT_MAX_COLUMNS :: int where "DEFAULT_MAX_COLUMNS = 20"
definition DEFAULT_ROWS_PER_PAGE :: int where "DEFAULT_ROWS_PER_PAGE = 10"
definition DEFAULT_MAX_DATA_SIZE :: int where "DEFAULT_MAX_DATA_SIZE = 5000000"

fun FindFormatter :: "(pyclass \<times> formatter) list \<Rightarrow> formatter" where
  "FindFormatter [] x = Inr x"
| "FindFormatter ((each, f) # formatters) x =
     (if isinstance x each then f x else FindFormatter formatters x)"

subsection \<open>The constructor\<close>

text \<open>\<open>v or d\<close> for an optional integer argument: \<open>None\<close> and \<open>0\<close> give the default.\<close>

definition py_or :: "int option \<Rightarrow> int \<Rightarrow> int" where
  "py_or v d = (case v of None \<Rightarrow> d | Some n \<Rightarrow> if n = 0 then d else n)"

record GVizTable =
  self_id :: string
  self_columns :: "key list"
  self_data :: addr
  self_column_widths :: "(int \<times> pyval) list"
  self_custom_formatters :: "int \<rightharpoonup> formatter"
  self_header_formatters :: "int \<rightharpoonup> formatter"
  self_num_rows_per_page :: int
  self_published :: bool

text \<open>The keyword arguments of \<open>GVizTable.__init__\<close>; \<open>no_options\<close> leaves them all out.\<close>

record options =
  num_rows_per_page :: "int option"
  max_rows :: "int option"
  max_columns :: "int option"
  max_data_size :: "int option"
  column_widths :: "(int \<times> pyval) list option"
  custom_formatters :: "(key \<times> formatter) list option"
  publish_immediately :: bool
  default_formatters :: "(pyclass \<times> formatter) list option"

definition no_options :: options where
  "no_options =
     \<lparr>num_rows_per_page = None, max_rows = None, max_columns = None, max_data_size = None,
      column_widths = None, custom_formatters = None, publish_immediately = False,
      default_formatters = None\<rparr>"

text \<open>Lines 212--218, the loop over \<open>enumerate(columns)\<close>.\<close>

definition fill_formatters ::
  "formatter \<Rightarrow> nat \<Rightarrow> (int \<rightharpoonup> formatter) \<Rightarrow> (int \<rightharpoonup> formatter) \<times> (int \<rightharpoonup> formatter)" where
  "fill_formatters default_formatter n custom =
     fold (\<lambda>i (cf, hf).
             ((if cf (int i) = None then cf(int i \<mapsto> default_formatter) else cf),
              hf(int i \<mapsto> default_formatter)))
          [0..<n] (custom, Map.empty)"

text \<open>
  Lines 192--221 of \<open>__init__\<close>: \<open>h\<close> is the store, \<open>globals_formatters\<close> the current value of
  the module's \<open>DEFAULT_FORMATTERS\<close>, \<open>uuid\<close> the text of \<open>uuid.uuid4()\<close>.  The result is the
  warnings printed, the store afterwards and the object.  \<open>max_data_size\<close> is computed
  (line 195) and then not used.
\<close>

definition GVizTable_init ::
  "heap \<Rightarrow> (pyclass \<times> formatter) list \<Rightarrow> string \<Rightarrow> key list \<Rightarrow> addr \<Rightarrow> options
   \<Rightarrow> warning list \<times> heap \<times> GVizTable" where
  "GVizTable_init h globals_formatters uuid columns data opts =
     (let default_formatters =
            (case default_formatters opts of None \<Rightarrow> globals_formatters | Some d \<Rightarrow> d);
          num_rows_per_page = py_or (num_rows_per_page opts) DEFAULT_ROWS_PER_PAGE;
          max_data_size = py_or (max_data_size opts) DEFAULT_MAX_DATA_SIZE;
          ident = ''IT_'' @ uuid;
          max_columns = py_or (max_columns opts) DEFAULT_MAX_COLUMNS;
          (ws1, trimmed_columns) = TrimColumns columns max_columns;
          (ws2, h', trimmed_data) =
             TrimData h data (py_or (max_rows opts) DEFAULT_MAX_ROWS) (Some max_columns);
          widths = (case column_widths opts of None \<Rightarrow> [] | Some w \<Rightarrow> w);
          (ws3, custom) = ProcessCustomFormatters (custom_formatters opts) columns;
          default_formatter = FindFormatter default_formatters;
          (custom', headers) = fill_formatters default_formatter (length columns) custom
      in (ws1 @ ws2 @ ws3, h',
          \<lparr>self_id = ident, self_columns = trimmed_columns, self_data = trimmed_data,
           self_column_widths = widths, self_custom_formatters = custom',
           self_header_formatters = headers, self_num_rows_per_page = num_rows_per_page,
           self_published = publish_immediately opts\<rparr>))"

subsection \<open>Rendering\<close>

definition key_value :: "key \<Rightarrow> pyval" where
  "key_value k = (case k of KInt i \<Rightarrow> PInt i | KStr s \<Rightarrow> PStr s)"

text \<open>Lines 259--262: the type and the formatted label of each column.\<close>

definition columns_and_types ::
  "(pyval \<Rightarrow> error + string) \<Rightarrow> GVizTable \<Rightarrow> string list \<Rightarrow> key list \<Rightarrow> error + pyval list" where
  "columns_and_types py_str self types columns =
     sequence (map (\<lambda>(i, (column_type, column)).
                      (case self_header_formatters self (int i) of
                         None \<Rightarrow> Inl KeyError
                       | Some f \<Rightarrow>
                           bind_result (f (key_value column))
                             (\<lambda>v. bind_result (py_str v)
                                (\<lambda>label. Inr (PList [PStr column_type, PStr label])))))
                   (enumerate 0 (zip types columns)))"

text \<open>The text of lines 268--282 with its fields filled in.\<close>

definition js_template :: "string \<Rightarrow> string \<Rightarrow> string \<Rightarrow> string \<Rightarrow> int \<Rightarrow> string" where
  \<open>js_template payload ident columns_json widths rows_per_page =
     [CHR 0x0A] @ ''      (() => {'' @ [CHR 0x0A] @ ''        const data = '' @ payload
     @ '';'' @ [CHR 0x0A] @ ''        const kernelTag = "'' @ ident @ ''";''
     @ [CHR 0x0A] @ ''        gvizInteractiveTable.create({'' @ [CHR 0x0A]
     @ ''          data,'' @ [CHR 0x0A] @ ''          saveCallback: () => {},''
     @ [CHR 0x0A] @ ''          elementId: "'' @ ident @ ''",'' @ [CHR 0x0A]
     @ ''          columns: '' @ columns_json @ '','' @ [CHR 0x0A]
     @ ''          columnWidths: '' @ widths @ '','' @ [CHR 0x0A]
     @ ''          rowsPerPage: '' @ show_int rows_per_page @ '','' @ [CHR 0x0A]
     @ ''        });'' @ [CHR 0x0A] @ ''      })();'' @ [CHR 0x0A]
     @ ''    //# sourceURL=table_'' @ ident @ [CHR 0x0A] @ ''    ''\<close>

text \<open>
  \<open>_gen_js\<close>.  \<open>py_str\<close> is the builtin \<open>str\<close> on the value a header formatter returned and
  on the list of widths, a parameter of the model.
\<close>

definition gen_js ::
  "(pyval \<Rightarrow> error + string) \<Rightarrow> GVizTable \<Rightarrow> key list \<Rightarrow> pyval list list \<Rightarrow> error + string" where
  "gen_js py_str self columns rows =
     bind_result (FormatData rows DEFAULT_NONUNICODE_FORMATTER (self_custom_formatters self))
       (\<lambda>formatted_data.
          bind_result (columns_and_types py_str self (fd_column_types formatted_data) columns)
            (\<lambda>cts.
               let widths =
                     (if self_column_widths self = [] then PStr ''null''
                      else PList (map (\<lambda>i. case map_of (self_column_widths self) (int i) of
                                             None \<Rightarrow> PStr ''null'' | Some w \<Rightarrow> w)
                                      [0..<length columns]))
               in bind_result (json_dumps False (PList cts))
                    (\<lambda>columns_json.
                       bind_result (case widths of PStr s \<Rightarrow> Inr s | _ \<Rightarrow> py_str widths)
                         (\<lambda>widths_text.
                            Inr (js_template (fd_data formatted_data) (self_id self) columns_json
                                   widths_text (self_num_rows_per_page self))))))"

text \<open>The text of lines 246--251 with its fields filled in.\<close>

definition html_template :: "string \<Rightarrow> string \<Rightarrow> string" where
  \<open>html_template ident initialization =
     [CHR 0x0A]
     @ ''      <link rel="stylesheet" href="/nbextensions/google.colab/gviz_interactive_table.css">''
     @ [CHR 0x0A]
     @ ''      <script src="/nbextensions/google.colab/gviz_loader.js"></script>''
     @ [CHR 0x0A]
     @ ''      <script src="/nbextensions/google.colab/gviz_interactive_table_main.js"></script>''
     @ [CHR 0x0A] @ ''      <div id="'' @ ident @ ''"></div>'' @ [CHR 0x0A]
     @ ''      <script>'' @ initialization @ ''</script>''\<close>

definition get_html :: "(pyval \<Rightarrow> error + string) \<Rightarrow> heap \<Rightarrow> GVizTable \<Rightarrow> error + string" where
  "get_html py_str h self =
     (if length (list_at h (self_data self)) = 0 then Inr ''The table is empty''
      else bind_result (gen_js py_str self (self_columns self) (list_at h (self_data self)))
             (\<lambda>initialization. Inr (html_template (self_id self) initialization)))"

text \<open>\<open>_repr_html_\<close>.\<close>

definition repr_html :: "(pyval \<Rightarrow> error + string) \<Rightarrow> heap \<Rightarrow> GVizTable \<Rightarrow> error + string" where
  "repr_html py_str h self = (if self_published self then Inr [] else get_html py_str h self)"

text \<open>
  The constructor with its last step, lines 223--224: with \<open>publish_immediately\<close> the
  table is rendered and handed to the display at once; the last component is what
  \<open>Publish\<close> rendered, \<open>None\<close> when it was not called.
\<close>

definition GVizTable_new ::
  "(pyval \<Rightarrow> error + string) \<Rightarrow> heap \<Rightarrow> (pyclass \<times> formatter) list \<Rightarrow> string \<Rightarrow> key list \<Rightarrow> addr
   \<Rightarrow> options \<Rightarrow> warning list \<times> heap \<times> GVizTable \<times> (error + string) option" where
  "GVizTable_new py_str h globals_formatters uuid columns rows opts =
     (let (ws, h', self) = GVizTable_init h globals_formatters uuid columns rows opts
      in (ws, h', self,
          if publish_immediately opts then Some (get_html py_str h' self) else None))"

section \<open>The escaping of \<open></\<close>\<close>

text \<open>\<open>adjacent a b xs\<close>: somewhere in \<open>xs\<close> an \<open>a\<close> is followed at once by a \<open>b\<close>.\<close>

fun adjacent :: "'a \<Rightarrow> 'a \<Rightarrow> 'a list \<Rightarrow> bool" where
  "adjacent a b (x # y # zs) = ((x = a \<and> y = b) \<or> adjacent a b (y # zs))"
| "adjacent a b _ = False"

lemma contains_close_adjacent: "contains ''</'' s = adjacent (CHR ''<'') (CHR ''/'') s"
  by (induction "CHR ''<''" "CHR ''/''" s rule: adjacent.induct) auto

lemma adjacent_append:
  "adjacent a b (u @ v) =
     (adjacent a b u \<or> adjacent a b v \<or> (u \<noteq> [] \<and> v \<noteq> [] \<and> last u = a \<and> hd v = b))"
proof (induction a b u rule: adjacent.induct, goal_cases)
  case (1 a b x y zs)
  then show ?case by auto
next
  case (2 a b)
  then show ?case by simp
next
  case (3 a b x)
  then show ?case by (cases v) auto
qed

lemma adjacent_map_inj: "inj f \<Longrightarrow> adjacent (f a) (f b) (map f xs) = adjacent a b xs"
  by (induction a b xs rule: adjacent.induct) (auto dest: injD)

lemma adjacent_in_set: "adjacent a b xs \<Longrightarrow> a \<in> set xs \<and> b \<in> set xs"
  by (induction a b xs rule: adjacent.induct) auto

lemma adjacent_concat_map:
  assumes ne: "\<And>x. f x \<noteq> []"
    and fa: "\<And>x. a \<in> set (f x) \<Longrightarrow> f x = [a] \<and> x = a'"
    and fb: "\<And>x. b \<in> set (f x) \<Longrightarrow> f x = [b] \<and> x = b'"
    and ab: "a \<noteq> b"
  shows "adjacent a b (concat (map f xs)) \<Longrightarrow> adjacent a' b' xs"
proof (induction xs)
  case Nil
  then show ?case by simp
next
  case (Cons x xs)
  have nofx: "\<not> adjacent a b (f x)"
  proof
    assume h: "adjacent a b (f x)"
    have "a \<in> set (f x)" using h adjacent_in_set by fastforce
    then have "f x = [a]" using fa by blast
    with h show False by simp
  qed
  from Cons.prems have "adjacent a b (f x @ concat (map f xs))" by simp
  then consider (rest) "adjacent a b (concat (map f xs))"
    | (border) "concat (map f xs) \<noteq> []" "last (f x) = a" "hd (concat (map f xs)) = b"
    using nofx by (auto simp: adjacent_append)
  then show ?case
  proof cases
    case rest
    then have "adjacent a' b' xs" using Cons.IH by blast
    then show ?thesis by (cases xs) auto
  next
    case border
    then obtain y ys where xs: "xs = y # ys" by (cases xs) auto
    have "a \<in> set (f x)" using border(2) ne [of x] last_in_set by metis
    then have xa: "x = a'" using fa by blast
    have "hd (f y) = b" using border(3) ne [of y] by (simp add: xs)
    then have "b \<in> set (f y)" using ne [of y] hd_in_set by metis
    then have "y = b'" using fb by blast
    then show ?thesis using xa xs by simp
  qed
qed


lemma digit_char_in: "digit_char d \<in> set ''0123456789abcdef''"
proof -
  have "d mod 16 < length ''0123456789abcdef''" by simp
  then show ?thesis unfolding digit_char_def by (rule nth_mem)
qed

lemma digit_char_not_special:
  "digit_char d \<noteq> CHR ''<''" "digit_char d \<noteq> CHR ''/''"
  "CHR ''<'' \<noteq> digit_char d" "CHR ''/'' \<noteq> digit_char d"
  using digit_char_in [of d] by auto

lemma char_of_eq_lt:
  "n < 256 \<Longrightarrow> (c = char_of (n::nat)) = (n = of_char c)"
  "n < 256 \<Longrightarrow> (char_of (n::nat) = c) = (n = of_char c)"
  by (metis of_char_of char_of_char mod_less)+

lemma escape_cp_nonempty: "escape_cp n \<noteq> []"
  by (simp add: escape_cp_def Let_def hex4_def)

lemma escape_cp_lt: "CHR ''<'' \<in> set (escape_cp n) \<Longrightarrow> escape_cp n = ''<'' \<and> n = 0x3C"
  by (auto simp: escape_cp_def Let_def hex4_def digit_char_not_special char_of_eq_lt
           split: if_splits)

lemma escape_cp_slash: "CHR ''/'' \<in> set (escape_cp n) \<Longrightarrow> escape_cp n = ''/'' \<and> n = 0x2F"
  by (auto simp: escape_cp_def Let_def hex4_def digit_char_not_special char_of_eq_lt
           split: if_splits)

lemma encode_unicode_close:
  assumes "contains ''</'' (encode_unicode cps)"
  shows "adjacent 0x3C 0x2F cps"
proof -
  let ?body = "concat (map escape_cp cps)"
  have "contains ''</'' (?body @ [CHR 0x22])"
    using assms by (simp add: encode_unicode_def)
  then have "adjacent (CHR ''<'') (CHR ''/'') ?body"
    by (auto simp: contains_close_adjacent adjacent_append)
  then show ?thesis
    by (rule adjacent_concat_map [rotated -1])
       (use escape_cp_nonempty escape_cp_lt escape_cp_slash in auto)
qed


lemma utf8_decode_step:
  assumes "utf8_decode bs = Some (cp # cps)"
  shows "\<exists>pre r. bs = pre @ r \<and> pre \<noteq> [] \<and> utf8_decode r = Some cps
                 \<and> (cp < 0x80 \<longrightarrow> pre = [cp])"
proof (cases bs)
  case Nil
  then show ?thesis using assms by simp
next
  case (Cons b0 r0)
  consider (one) "b0 < 0x80" | (two) "0xC2 \<le> b0" "b0 \<le> 0xDF"
    | (three) "0xE0 \<le> b0" "b0 \<le> 0xEF" | (four) "0xF0 \<le> b0" "b0 \<le> 0xF4"
    | (bad) "\<not> b0 < 0x80" "\<not> (0xC2 \<le> b0 \<and> b0 \<le> 0xDF)" "\<not> (0xE0 \<le> b0 \<and> b0 \<le> 0xEF)"
            "\<not> (0xF0 \<le> b0 \<and> b0 \<le> 0xF4)"
    by linarith
  then show ?thesis
  proof cases
    case one
    then have "bs = [b0] @ r0 \<and> utf8_decode r0 = Some cps \<and> cp = b0"
      using assms Cons by auto
    then show ?thesis by blast
  next
    case two
    then obtain b1 r where r0: "r0 = b1 # r" and d: "utf8_decode r = Some cps"
      and cp: "cp = (b0 - 0xC0) * 64 + (b1 - 0x80)"
      using assms Cons by (auto split: list.splits if_splits)
    have "\<not> cp < 0x80" using cp two by simp
    moreover have "bs = [b0, b1] @ r" using Cons r0 by simp
    ultimately show ?thesis using d by blast
  next
    case three
    then obtain b1 b2 r where r0: "r0 = b1 # b2 # r" and d: "utf8_decode r = Some cps"
      and cp: "cp = (b0 - 0xE0) * 4096 + (b1 - 0x80) * 64 + (b2 - 0x80)"
      and c: "is_cont b1" "if b0 = 0xE0 then 0xA0 \<le> b1 else True"
      using assms Cons by (auto split: list.splits if_splits)
    have "\<not> cp < 0x80" using cp three c by (auto simp: is_cont_def split: if_splits)
    moreover have "bs = [b0, b1, b2] @ r" using Cons r0 by simp
    ultimately show ?thesis using d by blast
  next
    case four
    then obtain b1 b2 b3 r where r0: "r0 = b1 # b2 # b3 # r" and d: "utf8_decode r = Some cps"
      and cp: "cp = (b0 - 0xF0) * 262144 + (b1 - 0x80) * 4096 + (b2 - 0x80) * 64 + (b3 - 0x80)"
      and c: "is_cont b1" "if b0 = 0xF0 then 0x90 \<le> b1 else True"
      using assms Cons by (auto split: list.splits if_splits)
    have "\<not> cp < 0x80" using cp four c by (auto simp: is_cont_def split: if_splits)
    moreover have "bs = [b0, b1, b2, b3] @ r" using Cons r0 by simp
    ultimately show ?thesis using d by blast
  next
    case bad
    then have "utf8_decode (b0 # r0) = None" by auto
    then show ?thesis using assms Cons by simp
  qed
qed

lemma utf8_decode_adjacent:
  assumes a: "a < 0x80" and b: "b < 0x80"
  shows "utf8_decode bs = Some cps \<Longrightarrow> adjacent a b cps \<Longrightarrow> adjacent a b bs"
proof (induction cps arbitrary: bs)
  case Nil
  then show ?case by simp
next
  case (Cons cp cps)
  from utf8_decode_step [OF Cons.prems(1)]
  obtain pre r where bs: "bs = pre @ r" and pre: "pre \<noteq> []"
    and d: "utf8_decode r = Some cps" and one: "cp < 0x80 \<longrightarrow> pre = [cp]"
    by blast
  from Cons.prems(2) obtain c2 rest where cps: "cps = c2 # rest"
    and alt: "(cp = a \<and> c2 = b) \<or> adjacent a b cps"
    by (cases cps) auto
  from alt show ?case
  proof
    assume h: "cp = a \<and> c2 = b"
    then have p1: "pre = [a]" using one a by simp
    from utf8_decode_step [OF d [unfolded cps]]
    obtain pre2 r2 where "r = pre2 @ r2" "c2 < 0x80 \<longrightarrow> pre2 = [c2]" by blast
    then have "r = b # r2" using h b by simp
    then show ?thesis using bs p1 by simp
  next
    assume "adjacent a b cps"
    then have "adjacent a b r" using Cons.IH d by blast
    then show ?thesis using bs by (simp add: adjacent_append)
  qed
qed

lemma encode_str_close:
  assumes "encode_str s = Inr r" and "contains ''</'' r"
  shows "contains ''</'' s"
proof -
  let ?bytes = "map of_char s :: nat list"
  have inj: "inj (of_char :: char \<Rightarrow> nat)" by (rule inj_of_char)
  have "adjacent 0x3C 0x2F ?bytes"
  proof (cases "list_all (\<lambda>b. b < (0x80::nat)) ?bytes")
    case True
    then have "r = encode_unicode ?bytes" using assms(1) by (simp add: encode_str_def Let_def)
    then show ?thesis using assms(2) encode_unicode_close by blast
  next
    case False
    then obtain cps where "utf8_decode ?bytes = Some cps" "r = encode_unicode cps"
      using assms(1) by (auto simp: encode_str_def Let_def split: option.splits)
    then show ?thesis using assms(2) encode_unicode_close utf8_decode_adjacent [of "0x3C" "0x2F"]
      by auto
  qed
  moreover have "of_char (CHR ''<'') = (0x3C::nat)" "of_char (CHR ''/'') = (0x2F::nat)" by simp_all
  ultimately have "adjacent (of_char (CHR ''<'') :: nat) (of_char (CHR ''/'')) ?bytes" by simp
  then show ?thesis
    unfolding contains_close_adjacent adjacent_map_inj [OF inj] .
qed


lemma replace_close_head:
  "replace ''</'' [CHR ''<'', CHR 0x5C, CHR ''/''] s = CHR ''/'' # r \<Longrightarrow> \<exists>r'. s = CHR ''/'' # r'"
  by (cases s) (auto split: if_splits)

lemma replace_no_close:
  "\<not> adjacent (CHR ''<'') (CHR ''/'') (replace ''</'' [CHR ''<'', CHR 0x5C, CHR ''/''] s)"
proof (induction "''</''" "[CHR ''<'', CHR 0x5C, CHR ''/'']" s rule: replace.induct)
  case 1
  then show ?case by simp
next
  case (2 c cs)
  let ?new = "[CHR ''<'', CHR 0x5C, CHR ''/'']"
  show ?case
  proof (cases "take (length ''</'') (c # cs) = ''</''")
    case True
    then have ih: "\<not> adjacent (CHR ''<'') (CHR ''/'') (replace ''</'' ?new (drop (length ''</'' - 1) cs))"
      using 2 by simp
    have "replace ''</'' ?new (c # cs) = ?new @ replace ''</'' ?new (drop (length ''</'' - 1) cs)"
      using True by simp
    then show ?thesis using ih by (simp only: adjacent_append) simp
  next
    case False
    then have ih: "\<not> adjacent (CHR ''<'') (CHR ''/'') (replace ''</'' ?new cs)"
      using 2 by simp
    have eq: "replace ''</'' ?new (c # cs) = [c] @ replace ''</'' ?new cs"
      using False by auto
    have "\<not> (c = CHR ''<'' \<and> (\<exists>r. replace ''</'' ?new cs = CHR ''/'' # r))"
    proof
      assume h: "c = CHR ''<'' \<and> (\<exists>r. replace ''</'' ?new cs = CHR ''/'' # r)"
      then obtain r' where "cs = CHR ''/'' # r'" using replace_close_head by blast
      with h False show False by simp
    qed
    then have "\<not> (replace ''</'' ?new cs \<noteq> [] \<and> c = CHR ''<'' \<and> hd (replace ''</'' ?new cs) = CHR ''/'')"
      by (cases "replace ''</'' ?new cs") auto
    then show ?thesis using ih unfolding eq adjacent_append by auto
  qed
qed

lemma ToJs_value_no_close:
  assumes "ToJs_value x nf as_string = Inr s"
  shows "\<not> contains ''</'' s"
proof -
  obtain r where s: "s = replace ''</'' [CHR ''<'', CHR 0x5C, CHR ''/''] r
      \<or> encode_str (replace ''</'' [CHR ''<'', CHR 0x5C, CHR ''/''] r) = Inr s"
    using assms
    by (auto simp: ToJs_value.simps [of x] bind_result_def Let_def split: sum.splits if_splits)
  have "\<not> contains ''</'' (replace ''</'' [CHR ''<'', CHR 0x5C, CHR ''/''] r)"
    by (simp only: contains_close_adjacent replace_no_close not_False_eq_True)
  then show ?thesis using s encode_str_close by metis
qed

text \<open>
  Claim C7.  Whatever the value, the fallback formatter, the formatter and \<open>as_string\<close>
  (which triggers the second encoding), a text that \<open>ToJs\<close> returns holds no \<open></\<close>.  The
  witness is a text value with \<open></script>\<close> in it.
\<close>

theorem ToJs_no_close:
  "ToJs x nf formatter as_string = Inr s \<Longrightarrow> \<not> contains ''</'' s"
  by (auto simp: ToJs_def bind_result_def ToJs_value_no_close split: option.splits sum.splits)

theorem ToJs_no_close_witness:
  "ToJs (PStr ''</script>'') (\<lambda>x. Inr x) None False
     = Inr [CHR 0x22, CHR ''<'', CHR 0x5C, CHR ''/'', CHR ''s'', CHR ''c'', CHR ''r'', CHR ''i'',
            CHR ''p'', CHR ''t'', CHR ''>'', CHR 0x22]
   \<and> \<not> contains ''</'' [CHR 0x22, CHR ''<'', CHR 0x5C, CHR ''/'', CHR ''s'', CHR ''c'', CHR ''r'',
            CHR ''i'', CHR ''p'', CHR ''t'', CHR ''>'', CHR 0x22]"
proof -
  have e: "ToJs (PStr ''</script>'') (\<lambda>x. Inr x) None False
     = Inr [CHR 0x22, CHR ''<'', CHR 0x5C, CHR ''/'', CHR ''s'', CHR ''c'', CHR ''r'', CHR ''i'',
            CHR ''p'', CHR ''t'', CHR ''>'', CHR 0x22]"
    by code_simp
  from ToJs_no_close [OF e] e show ?thesis by blast
qed

section \<open>The magnitude policy for integers\<close>
















section \<open>Column type inference: numeric or textual\<close>

text \<open>
  In the words of the specification: a cell is \<open>null\<close> or a number that is not a boolean.
\<close>

definition numeric_cell :: "pyval \<Rightarrow> bool" where
  "numeric_cell cell =
     (cell = PNone \<or> (isinstance cell C_Number \<and> \<not> isinstance cell C_bool))"

lemma sequence_map_Inr:
  "(\<And>x. x \<in> set xs \<Longrightarrow> f x = Inr (g x)) \<Longrightarrow> sequence (map f xs) = Inr (map g xs)"
  by (induction xs) auto

lemma getitem_nat: "i < length xs \<Longrightarrow> getitem xs (int i) = Inr (xs ! i)"
  by (simp add: getitem_def)

lemma cell_type_numeric:
  "((issubclass (cell_type c) C_Number \<or> issubclass (cell_type c) C_NoneType)
      \<and> \<not> issubclass (cell_type c) C_bool) = numeric_cell c"
  by (cases c) (auto simp: cell_type_def numeric_cell_def isinstance_def Let_def
                     split: np_base.splits)

lemma DetermineColumnType_cells:
  "DetermineColumnType (set (map cell_type cells))
     = (if list_all numeric_cell cells then ''number'' else ''string'')"
  unfolding DetermineColumnType_def set_map
  by (simp only: ball_simps cell_type_numeric list_all_iff)

text \<open>
  Claim C3.  For a column that every row reaches, the inferred type is \<open>'number'\<close> exactly
  when every cell of the column is \<open>null\<close> or a number that is not a boolean, and
  \<open>'string'\<close> otherwise.  The witness has a column of nulls (number), a column mixing a
  number and a text (string) and a column of booleans (string).
\<close>

theorem GetColumnType_number_iff:
  assumes "\<forall>row \<in> set rows. column_index < length row"
  shows "GetColumnType rows (int column_index)
           = Inr (if \<forall>row \<in> set rows. numeric_cell (row ! column_index)
                  then ''number'' else ''string'')"
proof -
  have "sequence (map (\<lambda>row. getitem row (int column_index)) rows)
          = Inr (map (\<lambda>row. row ! column_index) rows)"
    using assms by (intro sequence_map_Inr) (simp add: getitem_nat)
  then show ?thesis
    unfolding GetColumnType_def bind_result_def sum.case DetermineColumnType_cells
    by (simp add: list_all_iff)
qed

theorem GetColumnType_number_iff_witness:
  "list_all (\<lambda>row. 2 < length row) [[PNone, PInt 1, PBool True], [PNone, PStr ''a'', PBool False]]
   \<and> GetColumnType [[PNone, PInt 1, PBool True], [PNone, PStr ''a'', PBool False]] 0 = Inr ''number''
   \<and> GetColumnType [[PNone, PInt 1, PBool True], [PNone, PStr ''a'', PBool False]] 1 = Inr ''string''
   \<and> GetColumnType [[PNone, PInt 1, PBool True], [PNone, PStr ''a'', PBool False]] 2 = Inr ''string''"
proof -
  let ?rows = "[[PNone, PInt 1, PBool True], [PNone, PStr ''a'', PBool False]]"
  have l: "\<forall>row \<in> set ?rows. 2 < length row" by simp
  then have l0: "\<forall>row \<in> set ?rows. 0 < length row" and l1: "\<forall>row \<in> set ?rows. 1 < length row"
    by simp_all
  from GetColumnType_number_iff [OF l0] GetColumnType_number_iff [OF l1]
       GetColumnType_number_iff [OF l]
  show ?thesis
    by (simp add: numeric_cell_def isinstance_def)
qed

section \<open>The column cap and the caller's list\<close>

text \<open>A store holding one list of rows, at address \<open>0\<close>: the caller's \<open>data\<close>.\<close>

definition one_list_heap :: "pyval list list \<Rightarrow> heap" where
  "one_list_heap rows = \<lparr>list_at = (\<lambda>a. [])(0 := rows), next_free = 1\<rparr>"

lemma slice_to_nonneg: "0 \<le> n \<Longrightarrow> slice_to xs n = take (nat n) xs"
  by (simp add: slice_to_def)

lemma length_slice_to:
  "int (length xs) > n \<Longrightarrow> 0 \<le> n \<Longrightarrow> length (slice_to xs n) < length xs"
  by (auto simp: slice_to_def)

lemma trim_fold:
  "n \<le> length (list_at h a) \<Longrightarrow>
   fold (\<lambda>i h. setitem h a i (f (list_at h a ! i))) [0..<n] h
     = h\<lparr>list_at := (list_at h)(a := map f (take n (list_at h a)) @ drop n (list_at h a))\<rparr>"
proof (induction n)
  case 0
  then show ?case by simp
next
  case (Suc n)
  let ?rows = "list_at h a"
  have n: "n < length ?rows" using Suc.prems by simp
  have "(map f (take n ?rows) @ drop n ?rows)[n := f ((map f (take n ?rows) @ drop n ?rows) ! n)]
          = map f (take (Suc n) ?rows) @ drop (Suc n) ?rows"
    using n by (simp add: list_update_append nth_append take_Suc_conv_app_nth
        Cons_nth_drop_Suc [symmetric] min_def)
  then show ?case using Suc n by (simp add: setitem_def fun_upd_def fun_eq_iff cong: if_cong)
qed

lemma trim_rows_eq:
  "trim_rows h a mc = h\<lparr>list_at := (list_at h)(a := map (\<lambda>row. slice_to row mc) (list_at h a))\<rparr>"
  unfolding trim_rows_def by (subst trim_fold) simp_all


lemma TrimData_columns:
  "TrimData h a mr (Some mc) =
     (let rows = list_at h a;
          rows' = (if rows \<noteq> [] \<and> int (length (hd rows)) > mc
                   then map (\<lambda>row. slice_to row mc) rows else rows);
          h1 = h\<lparr>list_at := (list_at h)(a := rows')\<rparr>
      in if int (length rows') \<le> mr then ([], h1, a)
         else ([TooManyRows (length rows') mr],
               h1\<lparr>list_at := (list_at h1)(next_free h := slice_to rows' mr),
                  next_free := Suc (next_free h)\<rparr>,
               next_free h))"
  by (simp add: TrimData_def trim_rows_eq alloc_def Let_def)

lemma GVizTable_init_heap:
  "fst (snd (GVizTable_init h g uuid columns a opts))
     = fst (snd (TrimData h a (py_or (max_rows opts) DEFAULT_MAX_ROWS)
                   (Some (py_or (max_columns opts) DEFAULT_MAX_COLUMNS))))"
  by (simp add: GVizTable_init_def Let_def split: prod.splits)

text \<open>
  Claim C2, as amended.  When the number of columns exceeds \<open>max_columns\<close> (not negative),
  \<open>TrimColumns\<close> warns and keeps the first \<open>max_columns\<close> labels.  \<open>TrimData\<close> decides on the
  length of the first row alone: when the first row is longer than \<open>max_columns\<close> every
  row is cut to its first \<open>max_columns\<close> entries, and otherwise no row is cut, whatever
  the lengths of the other rows (the row cap then applies to the result).  The rows are
  read at the address \<open>TrimData\<close> returns.
\<close>

theorem column_cap:
  assumes "0 \<le> mc" and "int (length columns) > mc" and "rows = list_at h a"
  shows "TrimColumns columns mc = ([TooManyColumns (length columns) mc], take (nat mc) columns)
    \<and> (case TrimData h a mr (Some mc) of
          (ws, h', a') \<Rightarrow>
            list_at h' a' =
              (let rows' = (if rows \<noteq> [] \<and> int (length (hd rows)) > mc
                            then map (take (nat mc)) rows else rows)
               in if int (length rows') \<le> mr then rows' else slice_to rows' mr))"
proof -
  have "TrimColumns columns mc = ([TooManyColumns (length columns) mc], take (nat mc) columns)"
    using assms(1,2) by (simp add: TrimColumns_def slice_to_nonneg)
  moreover have "slice_to row mc = take (nat mc) row" for row :: "pyval list"
    using assms(1) by (simp add: slice_to_nonneg)
  ultimately show ?thesis
    using assms(3) by (simp add: TrimData_columns Let_def)
qed

theorem column_cap_witness:
  "(0::int) \<le> 2 \<and> int (length [KStr ''a'', KStr ''b'', KStr ''c'']) > 2
   \<and> TrimColumns [KStr ''a'', KStr ''b'', KStr ''c''] 2
        = ([TooManyColumns 3 2], [KStr ''a'', KStr ''b''])
   \<and> (case TrimData (one_list_heap [[PInt 1, PInt 2, PInt 3], [PInt 4, PInt 5, PInt 6]]) 0 20000
               (Some 2) of
         (ws, h', a') \<Rightarrow> list_at h' a' = [[PInt 1, PInt 2], [PInt 4, PInt 5]])"
proof -
  let ?h = "one_list_heap [[PInt 1, PInt 2, PInt 3], [PInt 4, PInt 5, PInt 6]]"
  have r: "[[PInt 1, PInt 2, PInt 3], [PInt 4, PInt 5, PInt 6]] = list_at ?h 0"
    by (simp add: one_list_heap_def)
  have c: "int (length [KStr ''a'', KStr ''b'', KStr ''c'']) > 2" by simp
  have t: "take (nat 2) [x, y, z] = [x, y]" for x y z :: "'a"
    by (simp add: numeral_2_eq_2)
  from column_cap [OF _ c r, of 20000] show ?thesis
    by (simp add: t split: prod.splits)
qed

text \<open>
  The claim as stated fails on rows of different lengths: three columns against
  \<open>max_columns = 2\<close>, a first row of two cells and a second row of three.  The header is
  cut with a warning, and the second row keeps its three cells.
\<close>

theorem column_cap_counterexample:
  "int (length [KStr ''a'', KStr ''b'', KStr ''c'']) > 2
   \<and> TrimColumns [KStr ''a'', KStr ''b'', KStr ''c''] 2
        = ([TooManyColumns 3 2], [KStr ''a'', KStr ''b''])
   \<and> (case TrimData (one_list_heap [[PInt 1, PInt 2], [PInt 1, PInt 2, PInt 3]]) 0 20000
               (Some 2) of
         (ws, h', a') \<Rightarrow>
           list_at h' a' = [[PInt 1, PInt 2], [PInt 1, PInt 2, PInt 3]]
           \<and> length (list_at h' a' ! 1) = 3)"
  by (simp add: TrimColumns_def slice_to_def TrimData_columns one_list_heap_def Let_def
      numeral_2_eq_2)

text \<open>
  Claim C10.  When the first row is longer than \<open>max_columns\<close>, the list the caller passed
  (at address \<open>a\<close>, allocated before the call) holds afterwards the sliced rows, and with
  a \<open>max_columns\<close> that is not negative it differs from what the caller had; the same
  holds for the store the constructor \<open>GVizTable.__init__\<close> leaves.
\<close>

theorem TrimData_in_place:
  assumes "rows = list_at h a" and "rows \<noteq> []" and "int (length (hd rows)) > mc"
    and "a < next_free h"
  shows "(case TrimData h a mr (Some mc) of
            (ws, h', a') \<Rightarrow>
              list_at h' a = map (\<lambda>row. slice_to row mc) rows
              \<and> (0 \<le> mc \<longrightarrow> list_at h' a \<noteq> rows))
         \<and> (mc = py_or (max_columns opts) DEFAULT_MAX_COLUMNS \<longrightarrow>
              (case GVizTable_init h g uuid columns a opts of
                 (ws, h', self) \<Rightarrow> list_at h' a = map (\<lambda>row. slice_to row mc) rows))"
proof -
  have "length (hd (map (\<lambda>row. slice_to row mc) rows)) < length (hd rows)" if "0 \<le> mc"
    using assms(2,3) that by (cases rows) (simp_all add: length_slice_to)
  then have ne: "0 \<le> mc \<longrightarrow> map (\<lambda>row. slice_to row mc) rows \<noteq> rows"
    by auto
  have t: "list_at (fst (snd (TrimData h a mr' (Some mc)))) a = map (\<lambda>row. slice_to row mc) rows"
    for mr'
    using assms by (simp add: TrimData_columns Let_def)
  have "list_at (fst (snd (GVizTable_init h g uuid columns a opts))) a
          = map (\<lambda>row. slice_to row mc) rows"
    if "mc = py_or (max_columns opts) DEFAULT_MAX_COLUMNS"
    unfolding GVizTable_init_heap using t that by simp
  then show ?thesis
    using t [of mr] ne by (auto split: prod.splits)
qed

theorem TrimData_in_place_witness:
  "[[PInt 1, PInt 2, PInt 3], [PInt 4, PInt 5, PInt 6]]
      = list_at (one_list_heap [[PInt 1, PInt 2, PInt 3], [PInt 4, PInt 5, PInt 6]]) 0
   \<and> (case TrimData (one_list_heap [[PInt 1, PInt 2, PInt 3], [PInt 4, PInt 5, PInt 6]]) 0 20000
               (Some 2) of
         (ws, h', a') \<Rightarrow> list_at h' 0 = [[PInt 1, PInt 2], [PInt 4, PInt 5]])
   \<and> (case GVizTable_init (one_list_heap [[PInt 1, PInt 2, PInt 3], [PInt 4, PInt 5, PInt 6]])
               DEFAULT_FORMATTERS ''u'' [KStr ''a'', KStr ''b'', KStr ''c''] 0
               (no_options\<lparr>max_columns := Some 2\<rparr>) of
         (ws, h', self) \<Rightarrow> list_at h' 0 = [[PInt 1, PInt 2], [PInt 4, PInt 5]])"
proof -
  let ?rows = "[[PInt 1, PInt 2, PInt 3], [PInt 4, PInt 5, PInt 6]]"
  let ?h = "one_list_heap ?rows"
  have r: "?rows = list_at ?h 0" by (simp add: one_list_heap_def)
  have n: "?rows \<noteq> []" by simp
  have l: "int (length (hd ?rows)) > 2" by simp
  have a: "0 < next_free ?h" by (simp add: one_list_heap_def)
  have m: "(2::int) = py_or (max_columns (no_options\<lparr>max_columns := Some 2\<rparr>)) DEFAULT_MAX_COLUMNS"
    by (simp add: py_or_def)
  have s: "map (\<lambda>row. slice_to row 2) ?rows = [[PInt 1, PInt 2], [PInt 4, PInt 5]]"
    by (simp add: slice_to_def numeral_2_eq_2)
  from TrimData_in_place [OF r n l a, of 20000 "no_options\<lparr>max_columns := Some 2\<rparr>"
      DEFAULT_FORMATTERS "''u''" "[KStr ''a'', KStr ''b'', KStr ''c'']"] m r
  show ?thesis unfolding s by (auto split: prod.splits)
qed

section \<open>Formatter precedence\<close>

lemma resolve_names_frame:
  "k < int i \<Longrightarrow> snd (resolve_names fs i cols out0) k = out0 k"
  by (induction cols arbitrary: i out0) (auto simp: case_prod_beta split: option.splits)

lemma resolve_names_output:
  "j < length cols \<Longrightarrow>
   snd (resolve_names fs i cols out0) (int (i + j))
     = (case out0 (int (i + j)) of Some g \<Rightarrow> Some g | None \<Rightarrow> map_of fs (cols ! j))"
proof (induction cols arbitrary: i j out0)
  case Nil
  then show ?case by simp
next
  case (Cons name rest)
  show ?case
  proof (cases j)
    case 0
    then show ?thesis
      by (auto simp: resolve_names_frame case_prod_beta split: option.splits)
  next
    case (Suc j')
    then have j': "j' < length rest" using Cons.prems by simp
    have ij: "int (i + j) = int (Suc i + j')" using Suc by simp
    show ?thesis
      using Cons.IH [OF j', of "Suc i"] Suc
      by (auto simp: ij case_prod_beta split: option.splits)
  qed
qed

lemma resolve_names_collision:
  "j < length cols \<Longrightarrow> out0 (int (i + j)) \<noteq> None \<Longrightarrow> map_of fs (cols ! j) \<noteq> None \<Longrightarrow>
   FormatterCollision (i + j) (cols ! j) \<in> set (fst (resolve_names fs i cols out0))"
proof (induction cols arbitrary: i j out0)
  case Nil
  then show ?case by simp
next
  case (Cons name rest)
  show ?case
  proof (cases j)
    case 0
    then show ?thesis using Cons.prems
      by (auto simp: case_prod_beta split: option.splits)
  next
    case (Suc j')
    then have j': "j' < length rest" using Cons.prems by simp
    have ij: "i + j = Suc i + j'" using Suc by simp
    have "FormatterCollision (Suc i + j') (rest ! j') \<in> set (fst (resolve_names fs (Suc i) rest o'))"
      if "o' (int (Suc i + j')) \<noteq> None" for o'
      using Cons.IH [OF j', of o' "Suc i"] that Cons.prems(3) Suc by simp
    then show ?thesis
      using Cons.prems(2) Suc
      by (auto simp: ij case_prod_beta split: option.splits)
  qed
qed

lemma check_key_warnings:
  assumes "col \<in> fst ` set fs"
  shows "set (check_key columns col) \<subseteq> set (concat (map (\<lambda>(col, f). check_key columns col) fs))"
  using assms by (induction fs) auto

text \<open>
  What the code does for the keys it handles: a column whose position is a key of the
  caller's dict gets the formatter keyed by position, and when its label is a key as well
  the collision warning for that column is printed; a text key that is no column label,
  and an integer key at or beyond the number of columns, each print their warning.  The
  function has no failing branch: its result is always the warnings and the dict.
\<close>

lemma formatter_precedence:
  assumes "ProcessCustomFormatters (Some fs) columns = (ws, out)"
  shows "(\<forall>i f. i < length columns \<and> map_of fs (KInt (int i)) = Some f \<longrightarrow>
            out (int i) = Some f
            \<and> (columns ! i \<in> fst ` set fs \<longrightarrow> FormatterCollision i (columns ! i) \<in> set ws))
       \<and> (\<forall>n. KStr n \<in> fst ` set fs \<and> KStr n \<notin> set columns \<longrightarrow>
            FormatterNameMissing (KStr n) \<in> set ws)
       \<and> (\<forall>k. KInt k \<in> fst ` set fs \<and> int (length columns) \<le> k \<longrightarrow>
            FormatterIndexExceeds k (length columns) \<in> set ws)"
proof (cases "fs = []")
  case True
  then show ?thesis by simp
next
  case False
  let ?ws1 = "concat (map (\<lambda>(col, f). check_key columns col) fs)"
  let ?r = "resolve_names fs 0 columns (index_formatters fs)"
  have ws: "ws = ?ws1 @ fst ?r" and out: "out = snd ?r"
    using assms False by (auto simp: ProcessCustomFormatters_def Let_def split: prod.splits)
  have p1: "out (int i) = Some f
      \<and> (columns ! i \<in> fst ` set fs \<longrightarrow> FormatterCollision i (columns ! i) \<in> set ws)"
    if "i < length columns" "map_of fs (KInt (int i)) = Some f" for i f
  proof -
    have o0: "index_formatters fs (int (0 + i)) = Some f"
      using that(2) by (simp add: index_formatters_def)
    have "out (int i) = Some f"
      using resolve_names_output [OF that(1), of fs 0 "index_formatters fs"] o0
      by (simp add: out)
    moreover have "FormatterCollision i (columns ! i) \<in> set ws" if "columns ! i \<in> fst ` set fs"
    proof -
      have "map_of fs (columns ! i) \<noteq> None" using that by (simp add: map_of_eq_None_iff)
      then show ?thesis
        using resolve_names_collision [OF \<open>i < length columns\<close>, of "index_formatters fs" 0 fs] o0
        by (simp add: ws)
    qed
    ultimately show ?thesis by blast
  qed
  have p2: "FormatterNameMissing (KStr n) \<in> set ws"
    if "KStr n \<in> fst ` set fs" "KStr n \<notin> set columns" for n
  proof -
    have "FormatterNameMissing (KStr n) \<in> set (check_key columns (KStr n))"
      using that(2) by (simp add: check_key_def)
    then have "FormatterNameMissing (KStr n) \<in> set ?ws1"
      using check_key_warnings [OF that(1), of columns] by blast
    then show ?thesis unfolding ws by simp
  qed
  have p3: "FormatterIndexExceeds k (length columns) \<in> set ws"
    if "KInt k \<in> fst ` set fs" "int (length columns) \<le> k" for k
  proof -
    have "FormatterIndexExceeds k (length columns) \<in> set (check_key columns (KInt k))"
      using that(2) by (simp add: check_key_def)
    then have "FormatterIndexExceeds k (length columns) \<in> set ?ws1"
      using check_key_warnings [OF that(1), of columns] by blast
    then show ?thesis unfolding ws by simp
  qed
  from p1 p2 p3 show ?thesis by blast
qed


lemma formatter_precedence_example:
  "snd (ProcessCustomFormatters
          (Some [(KInt 0, ''f''), (KStr ''a'', ''g''), (KStr ''zz'', ''g''), (KInt 5, ''f'')])
          [KStr ''a'', KStr ''b'']) 0 = Some ''f''
   \<and> FormatterCollision 0 (KStr ''a'') \<in> set (fst (ProcessCustomFormatters
          (Some [(KInt 0, ''f''), (KStr ''a'', ''g''), (KStr ''zz'', ''g''), (KInt 5, ''f'')])
          [KStr ''a'', KStr ''b'']))
   \<and> FormatterNameMissing (KStr ''zz'') \<in> set (fst (ProcessCustomFormatters
          (Some [(KInt 0, ''f''), (KStr ''a'', ''g''), (KStr ''zz'', ''g''), (KInt 5, ''f'')])
          [KStr ''a'', KStr ''b'']))
   \<and> FormatterIndexExceeds 5 2 \<in> set (fst (ProcessCustomFormatters
          (Some [(KInt 0, ''f''), (KStr ''a'', ''g''), (KStr ''zz'', ''g''), (KInt 5, ''f'')])
          [KStr ''a'', KStr ''b'']))"
proof -
  let ?fs = "[(KInt 0, ''f''), (KStr ''a'', ''g''), (KStr ''zz'', ''g''), (KInt 5, ''f'')]"
  let ?cols = "[KStr ''a'', KStr ''b'']"
  let ?r = "ProcessCustomFormatters (Some ?fs) ?cols"
  have e: "?r = (fst ?r, snd ?r)" by simp
  note p = formatter_precedence [OF e]
  have a: "snd ?r (int 0) = Some ''f''
      \<and> (?cols ! 0 \<in> fst ` set ?fs \<longrightarrow> FormatterCollision 0 (?cols ! 0) \<in> set (fst ?r))"
    using p by (elim conjE allE [of _ 0] allE [of _ "''f''"]) simp
  have b: "FormatterNameMissing (KStr ''zz'') \<in> set (fst ?r)"
    using p by (elim conjE allE [of _ "''zz''"]) simp
  have c: "FormatterIndexExceeds 5 (length ?cols) \<in> set (fst ?r)"
    using p by (elim conjE allE [of _ 5]) simp
  have l: "length ?cols = 2" by simp
  from a b c show ?thesis unfolding l by simp
qed

text \<open>
  Claim C5.  The comment of lines 51--52 announces a check that every key is a valid
  column name or index, with a warning otherwise.  A negative integer key is missed: with
  one column, the key \<open>-2\<close> is the position of no column, no warning is printed and the
  entry stays in the result under \<open>-2\<close>, where no column looks it up.  On the same column
  the text key \<open>zz\<close> and the integer key \<open>1\<close> each print their warning.
\<close>

theorem negative_formatter_key_no_warning:
  "fst (ProcessCustomFormatters (Some [(KInt (- 2), ''f'')]) [KStr ''a'']) = []
   \<and> snd (ProcessCustomFormatters (Some [(KInt (- 2), ''f'')]) [KStr ''a'']) (- 2) = Some ''f''
   \<and> snd (ProcessCustomFormatters (Some [(KInt (- 2), ''f'')]) [KStr ''a'']) 0 = None
   \<and> fst (ProcessCustomFormatters (Some [(KStr ''zz'', ''f'')]) [KStr ''a''])
       = [FormatterNameMissing (KStr ''zz'')]
   \<and> fst (ProcessCustomFormatters (Some [(KInt 1, ''f'')]) [KStr ''a''])
       = [FormatterIndexExceeds 1 1]"
  by (simp add: ProcessCustomFormatters_def check_key_def index_formatters_def)

section \<open>The encoding of a cell\<close>

lemma sequence_Inr_nth:
  "sequence rs = Inr vs \<Longrightarrow> length vs = length rs \<and> (\<forall>i<length rs. rs ! i = Inr (vs ! i))"
proof (induction rs arbitrary: vs)
  case Nil
  then show ?case by simp
next
  case (Cons r rs)
  then obtain v vs' where "r = Inr v" "sequence rs = Inr vs'" "vs = v # vs'"
    by (auto split: sum.splits)
  then show ?case using Cons.IH [of vs'] by (auto simp: nth_Cons split: nat.splits)
qed

lemma format_cell_Inr:
  assumes "format_cell types nf cf j cell = Inr text"
  shows "j < length types
    \<and> (if types ! j = ''number'' \<and> cf (int j) \<noteq> None
         then \<exists>f v raw forced.
                cf (int j) = Some f \<and> f cell = Inr v
                \<and> ToJs cell nf None False = Inr raw
                \<and> ToJs v nf None True = Inr forced
                \<and> text =
                    ''{'' @ [CHR 0x0A] @ ''            '' @ [CHR 0x27] @ ''v'' @ [CHR 0x27] @ '': '' @ raw
                      @ '','' @ [CHR 0x0A] @ ''            '' @ [CHR 0x27] @ ''f'' @ [CHR 0x27] @ '': '' @ forced
                      @ '','' @ [CHR 0x0A] @ ''        }''
         else ToJs cell nf (cf (int j)) False = Inr text)"
  using assms
  by (auto simp: format_cell_def bind_result_def getitem_def ToJs_def Let_def pair_literal_def
           split: option.splits sum.splits if_splits)

lemma format_row_Inr:
  assumes "format_row types nf cf row = Inr line"
  shows "\<exists>texts. line = join ('','' @ [CHR 0x0A]) texts \<and> length texts = length row
           \<and> (\<forall>j<length row. format_cell types nf cf j (row ! j) = Inr (texts ! j))"
proof -
  obtain texts where s: "sequence (map (\<lambda>(j, cell). format_cell types nf cf j cell)
                                    (enumerate 0 row)) = Inr texts"
    and l: "line = join ('','' @ [CHR 0x0A]) texts"
    using assms by (auto simp: format_row_def bind_result_def split: sum.splits)
  from sequence_Inr_nth [OF s]
  have "length texts = length row"
    and "\<forall>j<length row. format_cell types nf cf j (row ! j) = Inr (texts ! j)"
    by (auto simp: nth_enumerate_eq)
  then show ?thesis using l by blast
qed


lemma list_choice:
  assumes "\<forall>i<n. \<exists>x. P i x"
  shows "\<exists>xs. length xs = n \<and> (\<forall>i<n. P i (xs ! i))"
proof -
  from assms obtain f where f: "\<forall>i<n. P i (f i)" by metis
  have "length (map f [0..<n]) = n \<and> (\<forall>i<n. P i (map f [0..<n] ! i))"
    using f by simp
  then show ?thesis by blast
qed

text \<open>
  What the loop of the constructor leaves: every position of the header has a formatter,
  the caller's where there is one and the default formatter elsewhere.
\<close>

lemma fill_formatters_eq:
  "fill_formatters d n custom =
     ((\<lambda>k. if 0 \<le> k \<and> k < int n \<and> custom k = None then Some d else custom k),
      (\<lambda>k. if 0 \<le> k \<and> k < int n then Some d else None))"
proof (induction n)
  case 0
  then show ?case by (simp add: fill_formatters_def fun_eq_iff)
next
  case (Suc n)
  have "fill_formatters d (Suc n) custom =
          (\<lambda>(cf, hf). ((if cf (int n) = None then cf(int n \<mapsto> d) else cf), hf(int n \<mapsto> d)))
            (fill_formatters d n custom)"
    by (simp add: fill_formatters_def)
  moreover have "(x < 1 + int n) = (x < int n \<or> x = int n)" for x :: int
    by auto
  ultimately show ?case unfolding Suc by (auto simp: fun_eq_iff)
qed

lemma GVizTable_init_custom_formatters:
  "(case GVizTable_init h g uuid columns a opts of
      (ws, h', self) \<Rightarrow>
        self_custom_formatters self
          = fst (fill_formatters
                   (FindFormatter (case default_formatters opts of None \<Rightarrow> g | Some d \<Rightarrow> d))
                   (length columns)
                   (snd (ProcessCustomFormatters (custom_formatters opts) columns))))"
  by (simp add: GVizTable_init_def Let_def split: prod.splits)

text \<open>
  Claim C4, as amended.  When \<open>FormatData\<close> returns, its payload is the rows between \<open>[[\<close>
  and \<open>]]\<close>, each row the texts of its cells joined by a comma and a newline.  The text
  of the cell in row \<open>i\<close> and column \<open>j\<close> is the object literal \<open>{'v': raw, 'f': forced}\<close>, laid
  out as in lines 243--246, of the normalized cell and of the formatted cell normalized
  with \<open>as_string\<close>, exactly when the inferred type of column \<open>j\<close> is \<open>'number'\<close> and the dict of
  formatters given to \<open>FormatData\<close> has a formatter for \<open>j\<close>; in every other case it is the
  single text \<open>ToJs\<close> gives for the cell with that formatter, if any.  The column types
  returned are those \<open>GetColumnType\<close> infers.  The dict a widget gives to \<open>FormatData\<close> has a
  formatter at every position of the header: the caller's, or else the default formatter.
\<close>

theorem FormatData_cells:
  assumes "FormatData rows nf cf = Inr r"
  shows "(\<exists>texts. length texts = length rows
      \<and> fd_data r = ''[['' @ join ('']'' @ '','' @ [CHR 0x0A] @ '' ['')
                               (map (join ('','' @ [CHR 0x0A])) texts) @ '']]''
      \<and> (\<forall>i<length rows. length (texts ! i) = length (rows ! i)
           \<and> (\<forall>j<length (rows ! i).
                 GetColumnType rows (int j) = Inr (fd_column_types r ! j)
                 \<and> (if fd_column_types r ! j = ''number'' \<and> cf (int j) \<noteq> None
                      then \<exists>f v raw forced.
                             cf (int j) = Some f \<and> f (rows ! i ! j) = Inr v
                             \<and> ToJs (rows ! i ! j) nf None False = Inr raw
                             \<and> ToJs v nf None True = Inr forced
                             \<and> texts ! i ! j =
                                 ''{'' @ [CHR 0x0A] @ ''            '' @ [CHR 0x27] @ ''v'' @ [CHR 0x27] @ '': '' @ raw
                                   @ '','' @ [CHR 0x0A] @ ''            '' @ [CHR 0x27] @ ''f'' @ [CHR 0x27] @ '': '' @ forced
                                   @ '','' @ [CHR 0x0A] @ ''        }''
                      else ToJs (rows ! i ! j) nf (cf (int j)) False = Inr (texts ! i ! j)))))
    \<and> (case GVizTable_init h g uuid columns a opts of
          (ws, h', self) \<Rightarrow>
            \<forall>j<length columns.
              self_custom_formatters self (int j)
                = Some (case snd (ProcessCustomFormatters (custom_formatters opts) columns) (int j) of
                          Some f \<Rightarrow> f
                        | None \<Rightarrow> FindFormatter (case default_formatters opts of
                                                    None \<Rightarrow> g | Some d \<Rightarrow> d)))"
proof (rule conjI)
  obtain row0 types lines where row0: "getitem rows 0 = Inr row0"
    and types: "sequence (map (\<lambda>i. GetColumnType rows (int i)) [0..<length row0]) = Inr types"
    and lines: "sequence (map (format_row types nf cf) rows) = Inr lines"
    and r: "r = \<lparr>fd_column_types = types, fd_data = ''[['' @ join row_separator lines @ '']]''\<rparr>"
    using assms by (auto simp: FormatData_def bind_result_def split: sum.splits)
  from sequence_Inr_nth [OF types]
  have tl: "length types = length row0"
    and tj: "\<forall>j<length row0. GetColumnType rows (int j) = Inr (types ! j)"
    by auto
  from sequence_Inr_nth [OF lines]
  have ll: "length lines = length rows"
    and li: "\<forall>i<length rows. format_row types nf cf (rows ! i) = Inr (lines ! i)"
    by auto
  have "\<forall>i<length rows. \<exists>ts. lines ! i = join ('','' @ [CHR 0x0A]) ts
          \<and> length ts = length (rows ! i)
          \<and> (\<forall>j<length (rows ! i). format_cell types nf cf j (rows ! i ! j) = Inr (ts ! j))"
    using li format_row_Inr by blast
  then obtain texts where tn: "length texts = length rows"
    and tp: "\<forall>i<length rows. lines ! i = join ('','' @ [CHR 0x0A]) (texts ! i)
          \<and> length (texts ! i) = length (rows ! i)
          \<and> (\<forall>j<length (rows ! i).
                format_cell types nf cf j (rows ! i ! j) = Inr (texts ! i ! j))"
    using list_choice [of "length rows"
        "\<lambda>i ts. lines ! i = join ('','' @ [CHR 0x0A]) ts
          \<and> length ts = length (rows ! i)
          \<and> (\<forall>j<length (rows ! i). format_cell types nf cf j (rows ! i ! j) = Inr (ts ! j))"]
    by blast
  have lm: "lines = map (join ('','' @ [CHR 0x0A])) texts"
    using ll tn tp by (intro nth_equalityI) simp_all
  have cell: "GetColumnType rows (int j) = Inr (types ! j)
      \<and> (if types ! j = ''number'' \<and> cf (int j) \<noteq> None
           then \<exists>f v raw forced.
                  cf (int j) = Some f \<and> f (rows ! i ! j) = Inr v
                  \<and> ToJs (rows ! i ! j) nf None False = Inr raw
                  \<and> ToJs v nf None True = Inr forced
                  \<and> texts ! i ! j =
                      ''{'' @ [CHR 0x0A] @ ''            '' @ [CHR 0x27] @ ''v'' @ [CHR 0x27] @ '': '' @ raw
                        @ '','' @ [CHR 0x0A] @ ''            '' @ [CHR 0x27] @ ''f'' @ [CHR 0x27] @ '': '' @ forced
                        @ '','' @ [CHR 0x0A] @ ''        }''
           else ToJs (rows ! i ! j) nf (cf (int j)) False = Inr (texts ! i ! j))"
    if "i < length rows" "j < length (rows ! i)" for i j
  proof -
    have fc: "format_cell types nf cf j (rows ! i ! j) = Inr (texts ! i ! j)"
      using tp that by blast
    from format_cell_Inr [OF fc] have "j < length row0" using tl by simp
    then show ?thesis using format_cell_Inr [OF fc] tj by blast
  qed
  have ct: "fd_column_types r = types"
    and cd: "fd_data r = ''[['' @ join ('']'' @ '','' @ [CHR 0x0A] @ '' ['')
                               (map (join ('','' @ [CHR 0x0A])) texts) @ '']]''"
    by (simp_all add: r lm row_separator_def)
  show "\<exists>texts. length texts = length rows
      \<and> fd_data r = ''[['' @ join ('']'' @ '','' @ [CHR 0x0A] @ '' ['')
                               (map (join ('','' @ [CHR 0x0A])) texts) @ '']]''
      \<and> (\<forall>i<length rows. length (texts ! i) = length (rows ! i)
           \<and> (\<forall>j<length (rows ! i).
                 GetColumnType rows (int j) = Inr (fd_column_types r ! j)
                 \<and> (if fd_column_types r ! j = ''number'' \<and> cf (int j) \<noteq> None
                      then \<exists>f v raw forced.
                             cf (int j) = Some f \<and> f (rows ! i ! j) = Inr v
                             \<and> ToJs (rows ! i ! j) nf None False = Inr raw
                             \<and> ToJs v nf None True = Inr forced
                             \<and> texts ! i ! j =
                                 ''{'' @ [CHR 0x0A] @ ''            '' @ [CHR 0x27] @ ''v'' @ [CHR 0x27] @ '': '' @ raw
                                   @ '','' @ [CHR 0x0A] @ ''            '' @ [CHR 0x27] @ ''f'' @ [CHR 0x27] @ '': '' @ forced
                                   @ '','' @ [CHR 0x0A] @ ''        }''
                      else ToJs (rows ! i ! j) nf (cf (int j)) False = Inr (texts ! i ! j))))"
    unfolding ct
  proof (intro exI [of _ texts] conjI allI impI)
    show "length texts = length rows" by (rule tn)
    show "fd_data r = ''[['' @ join ('']'' @ '','' @ [CHR 0x0A] @ '' ['')
                               (map (join ('','' @ [CHR 0x0A])) texts) @ '']]''"
      by (rule cd)
  next
    fix i assume "i < length rows"
    then show "length (texts ! i) = length (rows ! i)" using tp by blast
  next
    fix i j assume "i < length rows" "j < length (rows ! i)"
    from cell [OF this] show "GetColumnType rows (int j) = Inr (types ! j)" by blast
  next
    fix i j assume "i < length rows" "j < length (rows ! i)"
    from cell [OF this]
    show "if types ! j = ''number'' \<and> cf (int j) \<noteq> None
           then \<exists>f v raw forced.
                  cf (int j) = Some f \<and> f (rows ! i ! j) = Inr v
                  \<and> ToJs (rows ! i ! j) nf None False = Inr raw
                  \<and> ToJs v nf None True = Inr forced
                  \<and> texts ! i ! j =
                      ''{'' @ [CHR 0x0A] @ ''            '' @ [CHR 0x27] @ ''v'' @ [CHR 0x27] @ '': '' @ raw
                        @ '','' @ [CHR 0x0A] @ ''            '' @ [CHR 0x27] @ ''f'' @ [CHR 0x27] @ '': '' @ forced
                        @ '','' @ [CHR 0x0A] @ ''        }''
           else ToJs (rows ! i ! j) nf (cf (int j)) False = Inr (texts ! i ! j)"
      by blast
  qed
next
  show "case GVizTable_init h g uuid columns a opts of
          (ws, h', self) \<Rightarrow>
            \<forall>j<length columns.
              self_custom_formatters self (int j)
                = Some (case snd (ProcessCustomFormatters (custom_formatters opts) columns) (int j) of
                          Some f \<Rightarrow> f
                        | None \<Rightarrow> FindFormatter (case default_formatters opts of
                                                    None \<Rightarrow> g | Some d \<Rightarrow> d))"
    using GVizTable_init_custom_formatters [where h = h and g = g and uuid = uuid
        and columns = columns and a = a and opts = opts]
    by (auto simp: fill_formatters_eq split: prod.splits option.splits)
qed


text \<open>
  A row with a text column and a numeric column, both with a formatter; and a widget
  built with no formatter of the caller's.
\<close>

theorem FormatData_cells_witness:
  "FormatData [[PStr ''x'', PInt 5]] (\<lambda>x. Inr x)
       (\<lambda>k. if k = 0 \<or> k = 1 then Some (\<lambda>x. Inr x) else None)
     = Inr \<lparr>fd_column_types = [''string'', ''number''],
            fd_data = ''[['' @ [CHR 0x22] @ ''x'' @ [CHR 0x22] @ '','' @ [CHR 0x0A]
              @ (''{'' @ [CHR 0x0A] @ ''            '' @ [CHR 0x27] @ ''v'' @ [CHR 0x27] @ '': '' @ ''5''
                @ '','' @ [CHR 0x0A] @ ''            '' @ [CHR 0x27] @ ''f'' @ [CHR 0x27] @ '': '' @ ([CHR 0x22] @ ''5'' @ [CHR 0x22])
                @ '','' @ [CHR 0x0A] @ ''        }'')
              @ '']]''\<rparr>
   \<and> (\<exists>texts. length texts = 1
          \<and> texts ! 0 ! 0 = [CHR 0x22] @ ''x'' @ [CHR 0x22]
          \<and> texts ! 0 ! 1 =
                ''{'' @ [CHR 0x0A] @ ''            '' @ [CHR 0x27] @ ''v'' @ [CHR 0x27] @ '': '' @ ''5''
                @ '','' @ [CHR 0x0A] @ ''            '' @ [CHR 0x27] @ ''f'' @ [CHR 0x27] @ '': '' @ ([CHR 0x22] @ ''5'' @ [CHR 0x22])
                @ '','' @ [CHR 0x0A] @ ''        }'')
   \<and> (case GVizTable_init (one_list_heap [[PStr ''x'', PInt 5]]) DEFAULT_FORMATTERS ''u''
               [KStr ''a'', KStr ''b''] 0 no_options of
         (ws, h', self) \<Rightarrow>
           self_custom_formatters self 1 = Some (FindFormatter DEFAULT_FORMATTERS))"
proof -
  let ?rows = "[[PStr ''x'', PInt 5]]"
  let ?nf = "\<lambda>x::pyval. Inr x :: error + pyval"
  let ?cf = "\<lambda>k::int. if k = 0 \<or> k = 1 then Some ?nf else None"
  let ?r = "\<lparr>fd_column_types = [''string'', ''number''],
            fd_data = ''[['' @ [CHR 0x22] @ ''x'' @ [CHR 0x22] @ '','' @ [CHR 0x0A]
              @ (''{'' @ [CHR 0x0A] @ ''            '' @ [CHR 0x27] @ ''v'' @ [CHR 0x27] @ '': '' @ ''5''
                @ '','' @ [CHR 0x0A] @ ''            '' @ [CHR 0x27] @ ''f'' @ [CHR 0x27] @ '': '' @ ([CHR 0x22] @ ''5'' @ [CHR 0x22])
                @ '','' @ [CHR 0x0A] @ ''        }'')
              @ '']]''\<rparr>"
  let ?h = "one_list_heap ?rows"
  let ?cols = "[KStr ''a'', KStr ''b'']"
  have e: "FormatData ?rows ?nf ?cf = Inr ?r" by code_simp
  have x: "ToJs (PStr ''x'') ?nf (Some ?nf) False = Inr ([CHR 0x22] @ ''x'' @ [CHR 0x22])"
    by code_simp
  have raw: "ToJs (PInt 5) ?nf None False = Inr ''5''" by code_simp
  have forced: "ToJs (PInt 5) ?nf None True = Inr ([CHR 0x22] @ ''5'' @ [CHR 0x22])" by code_simp
  note th = FormatData_cells [OF e, where h = ?h and g = DEFAULT_FORMATTERS and uuid = "''u''"
      and columns = ?cols and a = 0 and opts = no_options]
  from th [THEN conjunct1] obtain texts where n: "length texts = length ?rows"
    and c: "\<forall>i<length ?rows. length (texts ! i) = length (?rows ! i)
           \<and> (\<forall>j<length (?rows ! i).
                 GetColumnType ?rows (int j) = Inr (fd_column_types ?r ! j)
                 \<and> (if fd_column_types ?r ! j = ''number'' \<and> ?cf (int j) \<noteq> None
                     then \<exists>f v raw forced.
                            ?cf (int j) = Some f \<and> f (?rows ! i ! j) = Inr v
                            \<and> ToJs (?rows ! i ! j) ?nf None False = Inr raw
                            \<and> ToJs v ?nf None True = Inr forced
                            \<and> texts ! i ! j =
                                ''{'' @ [CHR 0x0A] @ ''            '' @ [CHR 0x27] @ ''v'' @ [CHR 0x27] @ '': '' @ raw
                                @ '','' @ [CHR 0x0A] @ ''            '' @ [CHR 0x27] @ ''f'' @ [CHR 0x27] @ '': '' @ forced
                                @ '','' @ [CHR 0x0A] @ ''        }''
                     else ToJs (?rows ! i ! j) ?nf (?cf (int j)) False = Inr (texts ! i ! j)))"
    by blast
  have i0: "(0::nat) < length ?rows" by simp
  note cj = c [rule_format, OF i0, THEN conjunct2, rule_format, THEN conjunct2]
  have j0: "(0::nat) < length (?rows ! 0)" and j1: "(1::nat) < length (?rows ! 0)"
    by simp_all
  from cj [OF j0] have c0: "ToJs (PStr ''x'') ?nf (Some ?nf) False = Inr (texts ! 0 ! 0)"
    by simp
  from cj [OF j1] have c1: "\<exists>f v raw forced.
         Some ?nf = Some f \<and> f (PInt 5) = Inr v
         \<and> ToJs (PInt 5) ?nf None False = Inr raw \<and> ToJs v ?nf None True = Inr forced
         \<and> texts ! 0 ! 1 =
             ''{'' @ [CHR 0x0A] @ ''            '' @ [CHR 0x27] @ ''v'' @ [CHR 0x27] @ '': '' @ raw
                                @ '','' @ [CHR 0x0A] @ ''            '' @ [CHR 0x27] @ ''f'' @ [CHR 0x27] @ '': '' @ forced
                                @ '','' @ [CHR 0x0A] @ ''        }''"
    by simp
  have t0: "texts ! 0 ! 0 = [CHR 0x22] @ ''x'' @ [CHR 0x22]" using c0 x by simp
  have t1: "texts ! 0 ! 1 =
      ''{'' @ [CHR 0x0A] @ ''            '' @ [CHR 0x27] @ ''v'' @ [CHR 0x27] @ '': '' @ ''5''
                @ '','' @ [CHR 0x0A] @ ''            '' @ [CHR 0x27] @ ''f'' @ [CHR 0x27] @ '': '' @ ([CHR 0x22] @ ''5'' @ [CHR 0x22])
                @ '','' @ [CHR 0x0A] @ ''        }''"
    using c1 raw forced by auto
  have p: "snd (ProcessCustomFormatters (custom_formatters no_options) ?cols) 1 = None"
    by (simp add: ProcessCustomFormatters_def no_options_def)
  have w: "case GVizTable_init ?h DEFAULT_FORMATTERS ''u'' ?cols 0 no_options of
         (ws, h', self) \<Rightarrow>
           self_custom_formatters self 1 = Some (FindFormatter DEFAULT_FORMATTERS)"
    using th [THEN conjunct2] p
    by (auto simp: no_options_def split: prod.splits dest!: spec [of _ 1])
  from e n t0 t1 w show ?thesis by (intro conjI exI [of _ texts]) simp_all
qed

text \<open>
  The claim as stated fails on the payload of a widget: with no custom formatter given to
  the constructor, for the columns \<open>engine\<close>, \<open>version\<close> and the row \<open>['Trident', 5]\<close>, the numeric
  cell is the pair literal, since the constructor has entered the default formatter for it.
\<close>

theorem default_formatter_pair_counterexample:
  "custom_formatters no_options = None
   \<and> (case GVizTable_init (one_list_heap [[PStr ''Trident'', PInt 5]]) DEFAULT_FORMATTERS ''u''
               [KStr ''engine'', KStr ''version''] 0 no_options of
         (ws, h', self) \<Rightarrow>
           FormatData (list_at h' (self_data self)) DEFAULT_NONUNICODE_FORMATTER
             (self_custom_formatters self)
           = Inr \<lparr>fd_column_types = [''string'', ''number''],
                  fd_data = ''[['' @ [CHR 0x22] @ ''Trident'' @ [CHR 0x22] @ '','' @ [CHR 0x0A]
                    @ (''{'' @ [CHR 0x0A] @ ''            '' @ [CHR 0x27] @ ''v'' @ [CHR 0x27] @ '': '' @ ''5''
                @ '','' @ [CHR 0x0A] @ ''            '' @ [CHR 0x27] @ ''f'' @ [CHR 0x27] @ '': '' @ ([CHR 0x22] @ ''5'' @ [CHR 0x22])
                @ '','' @ [CHR 0x0A] @ ''        }'')
                    @ '']]''\<rparr>)"
  by code_simp

section \<open>The empty table\<close>

lemma TrimData_empty:
  assumes "list_at h a = []"
  shows "list_at (fst (snd (TrimData h a mr mc))) (snd (snd (TrimData h a mr mc))) = []"
  using assms
  by (cases mc) (auto simp: TrimData_def alloc_def slice_to_def Let_def)

lemma GVizTable_init_data:
  "(case GVizTable_init h g uuid columns a opts of
      (ws, h', self) \<Rightarrow>
        h' = fst (snd (TrimData h a (py_or (max_rows opts) DEFAULT_MAX_ROWS)
                         (Some (py_or (max_columns opts) DEFAULT_MAX_COLUMNS))))
        \<and> self_data self
            = snd (snd (TrimData h a (py_or (max_rows opts) DEFAULT_MAX_ROWS)
                          (Some (py_or (max_columns opts) DEFAULT_MAX_COLUMNS)))))"
  by (simp add: GVizTable_init_def Let_def split: prod.splits)

text \<open>
  Claim C9.  A widget whose row list is empty renders as the text \<open>The table is empty\<close>:
  for any widget object with no row, and for the object the constructor builds from an
  empty list, whatever the other arguments.  \<open>FormatData\<close> raises \<open>IndexError\<close> on an empty
  list (\<open>data[0]\<close>), so the rendering that succeeds has not called it.
\<close>

theorem empty_table_placeholder:
  "(list_at h (self_data self) = [] \<longrightarrow> get_html py_str h self = Inr ''The table is empty'')
   \<and> (list_at h a = [] \<longrightarrow>
        (case GVizTable_init h g uuid columns a opts of
           (ws, h', self) \<Rightarrow> get_html py_str h' self = Inr ''The table is empty''))
   \<and> FormatData [] nf cf = Inl IndexError"
proof (intro conjI impI)
  assume "list_at h (self_data self) = []"
  then show "get_html py_str h self = Inr ''The table is empty''"
    by (simp add: get_html_def)
next
  assume e: "list_at h a = []"
  show "case GVizTable_init h g uuid columns a opts of
          (ws, h', self) \<Rightarrow> get_html py_str h' self = Inr ''The table is empty''"
    using GVizTable_init_data [where h = h and g = g and uuid = uuid and columns = columns
        and a = a and opts = opts]
      TrimData_empty [OF e, where mr = "py_or (max_rows opts) DEFAULT_MAX_ROWS"
        and mc = "Some (py_or (max_columns opts) DEFAULT_MAX_COLUMNS)"]
    by (auto simp: get_html_def split: prod.splits)
next
  show "FormatData [] nf cf = Inl IndexError"
    by (simp add: FormatData_def getitem_def bind_result_def)
qed

theorem empty_table_placeholder_witness:
  "list_at (one_list_heap []) 0 = []
   \<and> (case GVizTable_init (one_list_heap []) DEFAULT_FORMATTERS ''u'' [] 0 no_options of
         (ws, h', self) \<Rightarrow>
           get_html (\<lambda>v. Inl TypeError) h' self = Inr ''The table is empty'')"
proof -
  have e: "list_at (one_list_heap []) 0 = []" by (simp add: one_list_heap_def)
  from empty_table_placeholder [where h = "one_list_heap []" and a = 0
      and py_str = "\<lambda>v. Inl TypeError" and g = DEFAULT_FORMATTERS and uuid = "''u''"
      and columns = "[]" and opts = no_options] e
  show ?thesis by simp
qed

section \<open>The size budget\<close>

text \<open>A \<open>str\<close> for the examples: it is only asked for the text of a byte string.\<close>

definition text_only_str :: "pyval \<Rightarrow> error + string" where
  "text_only_str v = (case v of PStr s \<Rightarrow> Inr s | _ \<Rightarrow> Inl TypeError)"

text \<open>What a serialized row adds to the running total: its length and \<open>10\<close>.\<close>

definition row_cost :: "string \<Rightarrow> int" where
  "row_cost each = int (length each) + 10"

lemma size_scan_None:
  "size_scan vs i t m = None \<Longrightarrow> 0 < n \<Longrightarrow> n \<le> length vs \<Longrightarrow>
   t + sum_list (map row_cost (take n vs)) \<le> m"
proof (induction vs arbitrary: i t n)
  case Nil
  then show ?case by simp
next
  case (Cons v vs)
  from Cons.prems(1) have fit: "t + row_cost v \<le> m"
    and rest: "size_scan vs (Suc i) (t + row_cost v) m = None"
    by (auto simp: Let_def row_cost_def add.assoc split: if_splits)
  show ?case
  proof (cases n)
    case 0
    then show ?thesis using Cons.prems by simp
  next
    case (Suc n')
    show ?thesis
    proof (cases "n' = 0")
      case True
      then show ?thesis using Suc fit by simp
    next
      case False
      then have "t + row_cost v + sum_list (map row_cost (take n' vs)) \<le> m"
        using Cons.IH [OF rest, of n'] Cons.prems(3) Suc by simp
      then show ?thesis using Suc by simp
    qed
  qed
qed

lemma size_scan_Some:
  "size_scan vs i t m = Some k \<Longrightarrow>
   i \<le> k \<and> k < i + length vs
   \<and> t + sum_list (map row_cost (take (Suc (k - i)) vs)) > m
   \<and> (0 < k - i \<longrightarrow> t + sum_list (map row_cost (take (k - i) vs)) \<le> m)"
proof (induction vs arbitrary: i t)
  case Nil
  then show ?case by simp
next
  case (Cons v vs)
  show ?case
  proof (cases "t + row_cost v > m")
    case True
    then have "k = i" using Cons.prems by (simp add: Let_def row_cost_def add.assoc)
    then show ?thesis using True by simp
  next
    case False
    then have rest: "size_scan vs (Suc i) (t + row_cost v) m = Some k"
      using Cons.prems by (simp add: Let_def row_cost_def add.assoc)
    from Cons.IH [OF rest] have k: "Suc i \<le> k" "k < Suc i + length vs"
      and over: "t + row_cost v + sum_list (map row_cost (take (Suc (k - Suc i)) vs)) > m"
      and under: "0 < k - Suc i \<longrightarrow>
                    t + row_cost v + sum_list (map row_cost (take (k - Suc i) vs)) \<le> m"
      by auto
    have ki: "k - i = Suc (k - Suc i)" using k by simp
    have "t + sum_list (map row_cost (take (k - i) (v # vs))) \<le> m"
      using under False unfolding ki by (cases "k - Suc i") simp_all
    then show ?thesis using k over unfolding ki by simp
  qed
qed

text \<open>
  \<open>ToJsMatrix\<close> honours the budget: it keeps the first \<open>n\<close> serialized rows, whose total
  fits, and when rows are left the next one would exceed the budget and the warning
  counts the rows left.
\<close>

lemma ToJsMatrix_cap:
  assumes "ToJsMatrix matrix nf cf m = Inr (ws, text)"
  shows "\<exists>values n.
           sequence (map (row_to_js nf cf) matrix) = Inr values \<and> n \<le> length values
           \<and> text = ''[['' @ join row_separator (take n values) @ '']]''
           \<and> (0 < n \<longrightarrow> sum_list (map row_cost (take n values)) \<le> m)
           \<and> (n = length values \<longrightarrow> ws = [])
           \<and> (n < length values \<longrightarrow>
                 ws = [DataExceedsLimit m (length values - n)]
                 \<and> sum_list (map row_cost (take (Suc n) values)) > m)"
proof -
  obtain vals where v: "sequence (map (row_to_js nf cf) matrix) = Inr vals"
    using assms by (auto simp: ToJsMatrix_def bind_result_def split: sum.splits)
  then have r: "(let (discarded, kept) =
             (case size_scan vals 0 0 m of
                None \<Rightarrow> (0, vals)
              | Some i \<Rightarrow> (length vals - i, take i vals))
       in Inr (if discarded \<noteq> 0 then [DataExceedsLimit m discarded] else [],
               ''[['' @ join row_separator kept @ '']]'')) = (Inr (ws, text) :: error + _)"
    using assms by (simp add: ToJsMatrix_def bind_result_def)
  show ?thesis
  proof (cases "size_scan vals 0 0 m")
    case None
    from size_scan_None [OF None, of "length vals"]
    have "0 < length vals \<longrightarrow> sum_list (map row_cost (take (length vals) vals)) \<le> m"
      by simp
    then show ?thesis using v r None
      by (intro exI [of _ vals] exI [of _ "length vals"]) simp
  next
    case (Some k)
    from size_scan_Some [OF Some]
    have "k < length vals" "sum_list (map row_cost (take (Suc k) vals)) > m"
      "0 < k \<longrightarrow> sum_list (map row_cost (take k vals)) \<le> m"
      by simp_all
    then show ?thesis using v r Some
      by (intro exI [of _ vals] exI [of _ k]) simp
  qed
qed

text \<open>The object the constructor builds does not depend on \<open>max_data_size\<close>.\<close>

lemma GVizTable_init_ignores_max_data_size:
  "GVizTable_init h g uuid columns a (opts\<lparr>max_data_size := m\<rparr>)
     = GVizTable_init h g uuid columns a opts"
  by (simp add: GVizTable_init_def Let_def)

text \<open>
  Claim C1.  The widget renders through \<open>FormatData\<close>, which takes no budget, and the
  constructor drops \<open>max_data_size\<close>.  For the column \<open>c\<close>, the rows \<open>['a']\<close> and \<open>['b']\<close> and
  \<open>max_data_size = 13\<close>, each serialized row costs \<open>3 + 10\<close>, so the budget fits the first
  row only: the constructor prints no warning and the payload and the rendered page hold
  both rows, where \<open>ToJsMatrix\<close> on the same rows keeps one row and warns of one discarded.
\<close>

theorem widget_ignores_max_data_size:
  "(case GVizTable_init (one_list_heap [[PStr ''a''], [PStr ''b'']]) DEFAULT_FORMATTERS ''u''
          [KStr ''c''] 0 (no_options\<lparr>max_data_size := Some 13\<rparr>) of
      (ws, h', self) \<Rightarrow>
        ws = []
        \<and> FormatData (list_at h' (self_data self)) DEFAULT_NONUNICODE_FORMATTER
              (self_custom_formatters self)
            = Inr \<lparr>fd_column_types = [''string''],
                   fd_data = ''[['' @ [CHR 0x22] @ ''a'' @ [CHR 0x22] @ row_separator
                             @ [CHR 0x22] @ ''b'' @ [CHR 0x22] @ '']]''\<rparr>
        \<and> get_html text_only_str h' self
            = Inr (html_template ''IT_u''
                (js_template
                   (''[['' @ [CHR 0x22] @ ''a'' @ [CHR 0x22] @ row_separator
                           @ [CHR 0x22] @ ''b'' @ [CHR 0x22] @ '']]'')
                   ''IT_u''
                   (''[['' @ [CHR 0x22] @ ''string'' @ [CHR 0x22] @ '', ''
                           @ [CHR 0x22] @ ''c'' @ [CHR 0x22] @ '']]'')
                   ''null'' 10)))
   \<and> ToJsMatrix [[PStr ''a''], [PStr ''b'']] DEFAULT_NONUNICODE_FORMATTER Map.empty 13
        = Inr ([DataExceedsLimit 13 1], ''[['' @ [CHR 0x22] @ ''a'' @ [CHR 0x22] @ '']]'')"
  by code_simp

section \<open>The fallback on undecodable text\<close>

text \<open>Line 132, \<open>result.replace('</', '<\\/')\<close>.\<close>

definition escape_close :: "string \<Rightarrow> string" where
  "escape_close s = replace ''</'' [CHR ''<'', CHR 0x5C, CHR ''/''] s"

lemma ToJs_each_sequence:
  "ToJs_each els nf = sequence (map (\<lambda>el. ToJs el nf None False) els)"
  by (induction els) (simp_all add: ToJs_def split: sum.splits)

lemma ToJs_formatted:
  "(case formatter of None \<Rightarrow> Inr x | Some f \<Rightarrow> f x) = Inr x1 \<Longrightarrow>
   ToJs x nf formatter as_string = ToJs_value x1 nf as_string"
  by (auto simp: ToJs_def bind_result_def split: option.splits)

lemma ToJs_value_fallback:
  assumes "json_dumps True (convert x) = Inl UnicodeDecodeError"
  shows "ToJs_value x nf as_string =
     bind_result
       (if isinstance (convert x) C_basestring
        then bind_result (nf (convert x)) (json_dumps False)
        else (case convert x of
                PList els \<Rightarrow>
                  bind_result (ToJs_each els nf) (\<lambda>ss. json_dumps False (PList (map PStr ss)))
              | _ \<Rightarrow> Inl TypeError))
       (\<lambda>result.
          if as_string \<and> \<not> isinstance (convert x) C_basestring
          then json_dumps False (PStr (escape_close result)) else Inr (escape_close result))"
  unfolding ToJs_value.simps [of x] Let_def assms escape_close_def by simp

text \<open>
  Claim C8, as amended.  Let the value, after the formatter and the conversions of lines
  96--120, be one on which \<open>json.dumps\<close> raises \<open>UnicodeDecodeError\<close>.  If it is a text:
  when the fallback formatter returns a value that \<open>json.dumps\<close> serializes, \<open>ToJs\<close> returns
  that serialization with \<open></\<close> escaped; an exception of the fallback formatter, or of
  serializing what it returned, reaches the caller.  If it is a list or a tuple whose
  elements \<open>ToJs\<close> normalizes: \<open>ToJs\<close> returns the serialization of the list of these texts
  with \<open></\<close> escaped, serialized once more as a text under \<open>as_string\<close>.
\<close>

theorem ToJs_decode_fallback:
  assumes "(case formatter of None \<Rightarrow> Inr x | Some f \<Rightarrow> f x) = Inr x1"
    and "json_dumps True (convert x1) = Inl UnicodeDecodeError"
  shows "(isinstance (convert x1) C_basestring \<longrightarrow>
            (\<forall>y s. nf (convert x1) = Inr y \<and> json_dumps False y = Inr s \<longrightarrow>
               ToJs x nf formatter as_string = Inr (escape_close s))
            \<and> (\<forall>e. nf (convert x1) = Inl e \<longrightarrow> ToJs x nf formatter as_string = Inl e)
            \<and> (\<forall>y e. nf (convert x1) = Inr y \<and> json_dumps False y = Inl e \<longrightarrow>
               ToJs x nf formatter as_string = Inl e))
       \<and> (\<forall>els ss s.
             convert x1 = PList els
             \<and> sequence (map (\<lambda>el. ToJs el nf None False) els) = Inr ss
             \<and> json_dumps False (PList (map PStr ss)) = Inr s \<longrightarrow>
             ToJs x nf formatter as_string
               = (if as_string then json_dumps False (PStr (escape_close s))
                  else Inr (escape_close s)))"
proof -
  note v = ToJs_value_fallback [OF assms(2), of nf as_string]
  have t: "ToJs x nf formatter as_string = ToJs_value x1 nf as_string"
    by (rule ToJs_formatted [OF assms(1)])
  have str_case: "isinstance (convert x1) C_basestring \<Longrightarrow>
      ToJs x nf formatter as_string
        = bind_result (bind_result (nf (convert x1)) (json_dumps False))
            (\<lambda>result. Inr (escape_close result))"
    unfolding t v by simp
  have lst: "convert x1 = PList els \<Longrightarrow>
      ToJs x nf formatter as_string
        = bind_result
            (bind_result (sequence (map (\<lambda>el. ToJs el nf None False) els))
               (\<lambda>ss. json_dumps False (PList (map PStr ss))))
            (\<lambda>result. if as_string then json_dumps False (PStr (escape_close result))
                       else Inr (escape_close result))" for els
    unfolding t v by (simp add: isinstance_def ToJs_each_sequence)
  show ?thesis
  proof (intro conjI impI allI)
    fix y s assume "isinstance (convert x1) C_basestring"
      "nf (convert x1) = Inr y \<and> json_dumps False y = Inr s"
    then show "ToJs x nf formatter as_string = Inr (escape_close s)"
      using str_case by (simp add: bind_result_def)
  next
    fix e assume "isinstance (convert x1) C_basestring" "nf (convert x1) = Inl e"
    then show "ToJs x nf formatter as_string = Inl e"
      using str_case by (simp add: bind_result_def)
  next
    fix y e assume "isinstance (convert x1) C_basestring"
      "nf (convert x1) = Inr y \<and> json_dumps False y = Inl e"
    then show "ToJs x nf formatter as_string = Inl e"
      using str_case by (simp add: bind_result_def)
  next
    fix els ss s
    assume "convert x1 = PList els
             \<and> sequence (map (\<lambda>el. ToJs el nf None False) els) = Inr ss
             \<and> json_dumps False (PList (map PStr ss)) = Inr s"
    then show "ToJs x nf formatter as_string
               = (if as_string then json_dumps False (PStr (escape_close s))
                  else Inr (escape_close s))"
      using lst [of els] by (simp add: bind_result_def)
  qed
qed

text \<open>
  The claim as stated fails on the text \<open>'\\xff'\<close>: with a fallback formatter that returns
  its argument, the second \<open>json.dumps\<close> raises \<open>UnicodeDecodeError\<close> to the caller; and with
  one that returns \<open>'</b>'\<close> the result is not the JSON encoding \<open>"</b>"\<close> of what the
  formatter returned but its escaped form.
\<close>

theorem ToJs_decode_fallback_counterexample:
  "json_dumps True (convert (PStr [CHR 0xFF])) = Inl UnicodeDecodeError
   \<and> ToJs (PStr [CHR 0xFF]) (\<lambda>x. Inr x) None False = Inl UnicodeDecodeError
   \<and> json_dumps False (PStr ''</b>'') = Inr ([CHR 0x22] @ ''</b>'' @ [CHR 0x22])
   \<and> ToJs (PStr [CHR 0xFF]) (\<lambda>x. Inr (PStr ''</b>'')) None False
       = Inr ([CHR 0x22] @ [CHR ''<'', CHR 0x5C, CHR ''/''] @ ''b>'' @ [CHR 0x22])"
  by code_simp

text \<open>The text \<open>'\\xff'\<close> and a list holding it, with a fallback formatter that returns \<open>'?'\<close>.\<close>

theorem ToJs_decode_fallback_witness:
  "json_dumps True (convert (PStr [CHR 0xFF])) = Inl UnicodeDecodeError
   \<and> ToJs (PStr [CHR 0xFF]) (\<lambda>x. Inr (PStr ''?'')) None False
       = Inr (escape_close ([CHR 0x22] @ ''?'' @ [CHR 0x22]))
   \<and> json_dumps True (convert (PList [PStr [CHR 0xFF], PInt 1])) = Inl UnicodeDecodeError
   \<and> ToJs (PList [PStr [CHR 0xFF], PInt 1]) (\<lambda>x. Inr (PStr ''?'')) None False
       = Inr (escape_close
               (''['' @ [CHR 0x22, CHR 0x5C, CHR 0x22] @ ''?'' @ [CHR 0x5C, CHR 0x22, CHR 0x22]
                @ '', '' @ [CHR 0x22] @ ''1'' @ [CHR 0x22] @ '']''))"
proof -
  let ?bad = "PStr [CHR 0xFF]"
  let ?nf = "\<lambda>x::pyval. Inr (PStr ''?'') :: error + pyval"
  let ?s = "[CHR 0x22] @ ''?'' @ [CHR 0x22]"
  let ?els = "[?bad, PInt 1]"
  let ?ss = "[?s, ''1'']"
  let ?l = "''['' @ [CHR 0x22, CHR 0x5C, CHR 0x22] @ ''?'' @ [CHR 0x5C, CHR 0x22, CHR 0x22]
                @ '', '' @ [CHR 0x22] @ ''1'' @ [CHR 0x22] @ '']''"
  have f: "(case None :: formatter option of None \<Rightarrow> Inr x | Some f \<Rightarrow> f x) = Inr x"
    for x :: pyval by simp
  have a: "json_dumps True (convert ?bad) = Inl UnicodeDecodeError" by code_simp
  have b: "isinstance (convert ?bad) C_basestring" by code_simp
  have j: "json_dumps False (PStr ''?'') = Inr ?s" by code_simp
  have one: "ToJs ?bad ?nf None False = Inr (escape_close ?s)"
    using ToJs_decode_fallback [OF f a, of ?nf False] b j by blast
  have la: "json_dumps True (convert (PList ?els)) = Inl UnicodeDecodeError" by code_simp
  have lc: "convert (PList ?els) = PList ?els" by code_simp
  have e1: "ToJs (PInt 1) ?nf None False = Inr ''1''" by code_simp
  have e0: "escape_close ?s = ?s" by code_simp
  have ls: "sequence (map (\<lambda>el. ToJs el ?nf None False) ?els) = Inr ?ss"
    using one e1 e0 by simp
  have lj: "json_dumps False (PList (map PStr ?ss)) = Inr ?l" by code_simp
  have two: "ToJs (PList ?els) ?nf None False = Inr (escape_close ?l)"
    using ToJs_decode_fallback [OF f la, of ?nf False] lc ls lj by simp
  from a one la two show ?thesis by blast
qed

end
